theory Spec2Isabelle
  imports Complex_Main
begin

section \<open>JavaScript numbers\<close>

text \<open>
  A JavaScript number is an IEEE 754 binary64 value: NaN, one of the two infinities, or a
  finite value. A finite value is kept as the rational it denotes; every arithmetic
  operation computes the exact rational result and rounds it back with \<open>fl\<close>
  (round to nearest, ties to even, 53 significant bits, exponents from -1022 to 1023,
  gradual underflow, overflow to infinity). Zero carries no sign: the operations
  embedded below (\<open>===\<close>, \<open><\<close>, \<open>||\<close>, \<open>Math.abs\<close>, string conversion, division by the
  constant 100) do not tell \<open>-0\<close> from \<open>+0\<close>.
\<close>

datatype jsnum = NaN | PosInf | NegInf | Fin rat

fun bit_length :: "nat \<Rightarrow> nat" where
  "bit_length n = (if n = 0 then 0 else Suc (bit_length (n div 2)))"

declare bit_length.simps [simp del]

definition pow2 :: "int \<Rightarrow> rat" where
  "pow2 e = (if 0 \<le> e then 2 ^ nat e else 1 / 2 ^ nat (- e))"

text \<open>The binary exponent of a positive rational: \<open>pow2 (ilog2 x) \<le> x < pow2 (ilog2 x + 1)\<close>.\<close>

definition ilog2 :: "rat \<Rightarrow> int" where
  "ilog2 x =
     (if 1 \<le> x then int (bit_length (nat \<lfloor>x\<rfloor>)) - 1
      else - int (bit_length (nat (\<lceil>1 / x\<rceil> - 1))))"

definition round_half_even :: "rat \<Rightarrow> int" where
  "round_half_even r =
     (let f = \<lfloor>r\<rfloor>; d = r - of_int f
      in if d < 1 / 2 then f
         else if 1 / 2 < d then f + 1
         else if even f then f else f + 1)"

definition fl :: "rat \<Rightarrow> jsnum" where
  "fl x =
     (if x = 0 then Fin 0
      else
        let q = max (ilog2 \<bar>x\<bar>) (- 1022) - 52;
            m = round_half_even (\<bar>x\<bar> / pow2 q);
            y = of_int m * pow2 q
        in if pow2 1024 \<le> y then (if x < 0 then NegInf else PosInf)
           else Fin (if x < 0 then - y else y))"

definition js_neg :: "jsnum \<Rightarrow> jsnum" where
  "js_neg a = (case a of NaN \<Rightarrow> NaN | PosInf \<Rightarrow> NegInf | NegInf \<Rightarrow> PosInf | Fin x \<Rightarrow> Fin (- x))"

fun js_add :: "jsnum \<Rightarrow> jsnum \<Rightarrow> jsnum" where
  "js_add NaN _ = NaN"
| "js_add _ NaN = NaN"
| "js_add PosInf NegInf = NaN"
| "js_add NegInf PosInf = NaN"
| "js_add PosInf _ = PosInf"
| "js_add _ PosInf = PosInf"
| "js_add NegInf _ = NegInf"
| "js_add _ NegInf = NegInf"
| "js_add (Fin x) (Fin y) = fl (x + y)"

definition js_sub :: "jsnum \<Rightarrow> jsnum \<Rightarrow> jsnum" where
  "js_sub a b = js_add a (js_neg b)"

definition is_negative :: "jsnum \<Rightarrow> bool" where
  "is_negative a = (case a of NaN \<Rightarrow> False | PosInf \<Rightarrow> False | NegInf \<Rightarrow> True | Fin x \<Rightarrow> x < 0)"

definition signed_inf :: "bool \<Rightarrow> jsnum" where
  "signed_inf neg = (if neg then NegInf else PosInf)"

fun js_mul :: "jsnum \<Rightarrow> jsnum \<Rightarrow> jsnum" where
  "js_mul NaN _ = NaN"
| "js_mul _ NaN = NaN"
| "js_mul (Fin x) (Fin y) = fl (x * y)"
| "js_mul a b =
     (if a = Fin 0 \<or> b = Fin 0 then NaN
      else signed_inf (is_negative a \<noteq> is_negative b))"

fun js_div :: "jsnum \<Rightarrow> jsnum \<Rightarrow> jsnum" where
  "js_div NaN _ = NaN"
| "js_div _ NaN = NaN"
| "js_div (Fin x) (Fin y) =
     (if y = 0 then (if x = 0 then NaN else signed_inf (x < 0)) else fl (x / y))"
| "js_div (Fin x) _ = Fin 0"
| "js_div a (Fin y) = signed_inf (is_negative a \<noteq> (y < 0))"
| "js_div _ _ = NaN"

text \<open>\<open>a < b\<close> on numbers: false as soon as one side is NaN.\<close>

fun js_lt :: "jsnum \<Rightarrow> jsnum \<Rightarrow> bool" where
  "js_lt NaN _ = False"
| "js_lt _ NaN = False"
| "js_lt (Fin x) (Fin y) = (x < y)"
| "js_lt NegInf b = (b \<noteq> NegInf)"
| "js_lt a PosInf = (a \<noteq> PosInf)"
| "js_lt _ _ = False"

text \<open>\<open>a === b\<close> on numbers: NaN is equal to nothing, not even itself.\<close>

definition js_strict_eq :: "jsnum \<Rightarrow> jsnum \<Rightarrow> bool" where
  "js_strict_eq a b = (a \<noteq> NaN \<and> a = b)"

definition isNaN :: "jsnum \<Rightarrow> bool" where
  "isNaN a = (a = NaN)"

definition is_finite :: "jsnum \<Rightarrow> bool" where
  "is_finite a = (case a of Fin _ \<Rightarrow> True | _ \<Rightarrow> False)"

text \<open>Truthiness of a number, as \<open>||\<close> and \<open>!\<close> see it: zero and NaN are falsy.\<close>

definition num_truthy :: "jsnum \<Rightarrow> bool" where
  "num_truthy a = (a \<noteq> NaN \<and> a \<noteq> Fin 0)"

definition Math_abs :: "jsnum \<Rightarrow> jsnum" where
  "Math_abs a = (case a of NaN \<Rightarrow> NaN | PosInf \<Rightarrow> PosInf | NegInf \<Rightarrow> PosInf | Fin x \<Rightarrow> Fin \<bar>x\<bar>)"

definition Math_floor :: "jsnum \<Rightarrow> jsnum" where
  "Math_floor a = (case a of Fin x \<Rightarrow> Fin (of_int \<lfloor>x\<rfloor>) | _ \<Rightarrow> a)"

text \<open>\<open>Math.round\<close>: the nearest integer, a tie going towards plus infinity.\<close>

definition Math_round :: "jsnum \<Rightarrow> jsnum" where
  "Math_round a = (case a of Fin x \<Rightarrow> Fin (of_int \<lfloor>x + 1 / 2\<rfloor>) | _ \<Rightarrow> a)"


definition js_le :: "jsnum \<Rightarrow> jsnum \<Rightarrow> bool" where
  "js_le a b = (a \<noteq> NaN \<and> b \<noteq> NaN \<and> (js_lt a b \<or> a = b))"

section \<open>JavaScript strings and values\<close>

text \<open>
  Strings are lists of characters with code units below 256. The values a raw field can
  hold are the ones of the parameter type \<open>string | number | undefined | null\<close>.
\<close>

datatype jsval = JUndefined | JNull | JNum jsnum | JStr string

text \<open>White space in the Latin-1 range: TAB, LF, VT, FF, CR, SP and NBSP.\<close>

definition is_ws :: "char \<Rightarrow> bool" where
  "is_ws c = (of_char c \<in> {9, 10, 11, 12, 13, 32, 160 :: nat})"

definition trim :: "string \<Rightarrow> string" where
  "trim s = rev (dropWhile is_ws (rev (dropWhile is_ws s)))"

text \<open>\<open>s.replace(/,/g, '')\<close>\<close>

definition strip_commas :: "string \<Rightarrow> string" where
  "strip_commas s = filter (\<lambda>c. c \<noteq> CHR '','') s"

definition is_digit :: "char \<Rightarrow> bool" where
  "is_digit c = (48 \<le> (of_char c :: nat) \<and> (of_char c :: nat) \<le> 57)"

definition digit_val :: "char \<Rightarrow> nat" where
  "digit_val c = of_char c - 48"

definition digits_val :: "string \<Rightarrow> nat" where
  "digits_val ds = foldl (\<lambda>n c. 10 * n + digit_val c) 0 ds"

definition take_sign :: "string \<Rightarrow> bool \<times> string" where
  "take_sign s =
     (case s of
        [] \<Rightarrow> (False, s)
      | c # r \<Rightarrow> if c = CHR ''-'' then (True, r) else if c = CHR ''+'' then (False, r) else (False, s))"

definition pow10 :: "int \<Rightarrow> rat" where
  "pow10 e = (if 0 \<le> e then 10 ^ nat e else 1 / 10 ^ nat (- e))"

definition is_prefix :: "string \<Rightarrow> string \<Rightarrow> bool" where
  "is_prefix p s = (take (length p) s = p)"

text \<open>
  The exponent part of a decimal literal, read from what follows the mantissa: \<open>e\<close> or
  \<open>E\<close>, an optional sign and at least one digit; anything else is not part of the number.
\<close>

definition exponent_part :: "string \<Rightarrow> int" where
  "exponent_part s =
     (case s of
        [] \<Rightarrow> 0
      | c # r \<Rightarrow>
          if c = CHR ''e'' \<or> c = CHR ''E'' then
            (let (neg, r') = take_sign r; ds = takeWhile is_digit r'
             in if ds = [] then 0
                else if neg then - int (digits_val ds) else int (digits_val ds))
          else 0)"

text \<open>
  \<open>parseFloat\<close>: leading white space is skipped, the longest prefix that is a decimal
  literal (or a signed \<open>Infinity\<close>) is read, and its exact value is rounded once to a
  number; NaN when there is no such prefix.
\<close>

definition parseFloat :: "string \<Rightarrow> jsnum" where
  "parseFloat s =
     (let (neg, u) = take_sign (dropWhile is_ws s)
      in if is_prefix ''Infinity'' u then signed_inf neg
         else
           let ip = takeWhile is_digit u;
               r1 = dropWhile is_digit u;
               has_dot = (r1 \<noteq> [] \<and> hd r1 = CHR ''.'');
               fp = (if has_dot then takeWhile is_digit (tl r1) else []);
               r2 = (if has_dot then dropWhile is_digit (tl r1) else r1)
           in if ip = [] \<and> fp = [] then NaN
              else
                let mv = (of_nat (digits_val ip) + of_nat (digits_val fp) / 10 ^ length fp)
                           * pow10 (exponent_part r2)
                in fl (if neg then - mv else mv))"

text \<open>\<open>parseInt(s, 10)\<close>: white space, an optional sign, then the longest run of digits.\<close>

definition parseInt :: "string \<Rightarrow> jsnum" where
  "parseInt s =
     (let (neg, u) = take_sign (dropWhile is_ws s);
          ds = takeWhile is_digit u
      in if ds = [] then NaN
         else fl (if neg then - of_nat (digits_val ds) else of_nat (digits_val ds)))"

section \<open>The value normalizers\<close>

definition safeParseFloat :: "jsval \<Rightarrow> jsnum" where
  "safeParseFloat v =
     (case v of
        JNull \<Rightarrow> Fin 0
      | JUndefined \<Rightarrow> Fin 0
      | JNum n \<Rightarrow> if isNaN n then Fin 0 else n
      | JStr s \<Rightarrow>
          let str = strip_commas (trim s); parsed = parseFloat str
          in if isNaN parsed then Fin 0 else parsed)"

definition safeParseInt :: "jsval \<Rightarrow> jsnum" where
  "safeParseInt v =
     (case v of
        JNull \<Rightarrow> Fin 0
      | JUndefined \<Rightarrow> Fin 0
      | JNum n \<Rightarrow> if isNaN n then Fin 0 else Math_floor n
      | JStr s \<Rightarrow>
          let str = strip_commas (trim s); parsed = parseInt str
          in if isNaN parsed then Fin 0 else parsed)"

section \<open>Account mapping\<close>

text \<open>
  \<open>AccountData\<close>, one raw account. A text field is a string or absent; a numeric field
  holds any value the normalizers accept. Input fields whose name an output record also
  uses carry the prefix \<open>raw_\<close>.
\<close>

record AccountData =
  raw_account_number :: "string option"
  raw_account_type :: "string option"
  beginning_balance :: jsval
  raw_ending_balance :: jsval
  total_deposits :: jsval
  total_withdrawals :: jsval
  avg_daily_balance :: jsval
  raw_no_of_deposits :: jsval
  raw_no_of_withdrawals :: jsval
  raw_mca_withdrawals :: jsval
  raw_returned_items_count :: jsval
  raw_returned_items_days :: jsval
  raw_overdraft_days :: jsval

record MappedAccount =
  account_number :: string
  account_type :: string
  starting_balance :: jsnum
  ending_balance :: jsnum
  total_credits :: jsnum
  total_debits :: jsnum
  average_balance :: jsnum
  no_of_deposits :: jsnum
  no_of_withdrawals :: jsnum
  mca_withdrawals :: jsnum
  returned_items_count :: jsnum
  returned_items_days :: jsnum
  overdraft_days :: jsnum

text \<open>\<open>s || ''\<close> on an optional string.\<close>

definition or_empty :: "string option \<Rightarrow> string" where
  "or_empty s = (case s of None \<Rightarrow> [] | Some t \<Rightarrow> t)"

definition mapAccountData :: "AccountData \<Rightarrow> MappedAccount" where
  "mapAccountData account =
     \<lparr> account_number = or_empty (raw_account_number account),
       account_type = or_empty (raw_account_type account),
       starting_balance = safeParseFloat (beginning_balance account),
       ending_balance = safeParseFloat (raw_ending_balance account),
       total_credits = safeParseFloat (total_deposits account),
       total_debits = Math_abs (safeParseFloat (total_withdrawals account)),
       average_balance = safeParseFloat (avg_daily_balance account),
       no_of_deposits = safeParseInt (raw_no_of_deposits account),
       no_of_withdrawals = safeParseInt (raw_no_of_withdrawals account),
       mca_withdrawals = safeParseFloat (raw_mca_withdrawals account),
       returned_items_count = safeParseInt (raw_returned_items_count account),
       returned_items_days = safeParseInt (raw_returned_items_days account),
       overdraft_days = safeParseInt (raw_overdraft_days account) \<rparr>"

section \<open>The reconciliation verdict\<close>

definition calculateDifference :: "MappedAccount \<Rightarrow> jsnum" where
  "calculateDifference account =
     (let calcBalance = js_add (js_sub (starting_balance account) (total_debits account))
                               (total_credits account);
          difference = js_sub (ending_balance account) calcBalance;
          rounded = js_div (Math_round (js_mul difference (Fin 100))) (Fin 100)
      in if js_lt (Math_abs rounded) (fl (5 / 1000)) then Fin 0 else rounded)"

text \<open>
  \<open>selectedAccount ? calculateDifference(selectedAccount) : 0\<close> and
  \<open>difference === 0\<close>; no selected account is \<open>None\<close>.
\<close>

definition displayed_difference :: "MappedAccount option \<Rightarrow> jsnum" where
  "displayed_difference selectedAccount =
     (case selectedAccount of None \<Rightarrow> Fin 0 | Some a \<Rightarrow> calculateDifference a)"

definition isHarmonized :: "MappedAccount option \<Rightarrow> bool" where
  "isHarmonized selectedAccount = js_strict_eq (displayed_difference selectedAccount) (Fin 0)"

text \<open>
  The rounding of the code on its own, \<open>Math.round(d * 100) / 100\<close>: the product is
  rounded to the nearest integer, a tie going towards plus infinity.
\<close>

definition code_round2 :: "jsnum \<Rightarrow> jsnum" where
  "code_round2 d = js_div (Math_round (js_mul d (Fin 100))) (Fin 100)"

text \<open>
  \<open>data.accounts[selectedAccountIndex] || data.accounts[0]\<close>; \<open>None\<close> is
  \<open>undefined\<close>, for a row without accounts.
\<close>

definition select_account :: "MappedAccount list \<Rightarrow> nat \<Rightarrow> MappedAccount option" where
  "select_account accs i =
     (if i < length accs then Some (accs ! i)
      else if accs \<noteq> [] then Some (hd accs) else None)"

section \<open>The host environment\<close>

text \<open>
  What the mapper reads from outside its argument. \<open>date_now\<close> is the reading that
  \<open>Date.now()\<close> returns, in milliseconds. \<open>number_text\<close> is the engine's conversion of
  a finite number to a string for the numbers that are not integers of magnitude at most
  \<open>2^53\<close> (the shortest decimal that reads back as the same number); for the other
  numbers the conversion is written out below. The last two fields are the host's time
  zone, in milliseconds east of UTC: \<open>zone_offset_of_utc tv\<close> is the offset in force at
  the instant \<open>tv\<close>, and \<open>zone_offset_of_local t\<close> the offset the engine takes for
  the local time value \<open>t\<close> (for a local time that a change of zone skips, the offset
  before the change).
\<close>

record host =
  date_now :: nat
  number_text :: "rat \<Rightarrow> string"
  zone_offset_of_local :: "int \<Rightarrow> int"
  zone_offset_of_utc :: "int \<Rightarrow> int"

fun nat_digits :: "nat \<Rightarrow> string" where
  "nat_digits n =
     (if n < 10 then [''0123456789'' ! n]
      else nat_digits (n div 10) @ [''0123456789'' ! (n mod 10)])"

declare nat_digits.simps [simp del]

definition is_safe_integer :: "rat \<Rightarrow> bool" where
  "is_safe_integer r = (of_int \<lfloor>r\<rfloor> = r \<and> \<bar>r\<bar> \<le> 2 ^ 53)"

definition Number_toString :: "host \<Rightarrow> jsnum \<Rightarrow> string" where
  "Number_toString h a =
     (case a of
        NaN \<Rightarrow> ''NaN''
      | PosInf \<Rightarrow> ''Infinity''
      | NegInf \<Rightarrow> ''-Infinity''
      | Fin r \<Rightarrow>
          if is_safe_integer r then
            (if r < 0 then CHR ''-'' # nat_digits (nat (- \<lfloor>r\<rfloor>)) else nat_digits (nat \<lfloor>r\<rfloor>))
          else number_text h r)"

section \<open>Calendar arithmetic of \<open>Date\<close>\<close>

text \<open>
  \<open>new Date(year, month, 0).getDate()\<close>, by the abstract operations of the language
  standard. Years 0 to 99 stand for 1900 to 1999, the month index is reduced modulo 12
  into the year, and day 0 is the day before the first of that month. Midnight of that
  day is a local time \<open>t\<close>; the constructor stores the instant
  \<open>tv = t - zone_offset_of_local t\<close>, invalid when further than \<open>8.64e15\<close>
  milliseconds from the epoch, and \<open>getDate\<close> reads the day of the month of the local
  time \<open>tv + zone_offset_of_utc tv\<close>. A calendar day is kept as a year and a day
  within that year, and moved by whole days.
\<close>

definition DaysInYear :: "int \<Rightarrow> int" where
  "DaysInYear y =
     (if y mod 4 \<noteq> 0 then 365
      else if y mod 100 \<noteq> 0 then 366
      else if y mod 400 \<noteq> 0 then 365
      else 366)"

definition InLeapYear :: "int \<Rightarrow> int" where
  "InLeapYear y = (if DaysInYear y = 366 then 1 else 0)"

definition DayFromYear :: "int \<Rightarrow> int" where
  "DayFromYear y =
     365 * (y - 1970) + (y - 1969) div 4 - (y - 1901) div 100 + (y - 1601) div 400"

text \<open>The day within the year on which month \<open>mn\<close> (0 to 11) begins; \<open>leap\<close> is 0 or 1.\<close>

definition month_start :: "int \<Rightarrow> int \<Rightarrow> int" where
  "month_start mn leap =
     (if mn = 0 then 0
      else if mn = 1 then 31
      else if mn = 2 then 59 + leap
      else if mn = 3 then 90 + leap
      else if mn = 4 then 120 + leap
      else if mn = 5 then 151 + leap
      else if mn = 6 then 181 + leap
      else if mn = 7 then 212 + leap
      else if mn = 8 then 243 + leap
      else if mn = 9 then 273 + leap
      else if mn = 10 then 304 + leap
      else 334 + leap)"

definition MonthFromDay :: "int \<Rightarrow> int \<Rightarrow> int" where
  "MonthFromDay d leap =
     (if d < 31 then 0
      else if d < 59 + leap then 1
      else if d < 90 + leap then 2
      else if d < 120 + leap then 3
      else if d < 151 + leap then 4
      else if d < 181 + leap then 5
      else if d < 212 + leap then 6
      else if d < 243 + leap then 7
      else if d < 273 + leap then 8
      else if d < 304 + leap then 9
      else if d < 334 + leap then 10
      else 11)"

definition DateFromDay :: "int \<Rightarrow> int \<Rightarrow> int" where
  "DateFromDay d leap =
     (let m = MonthFromDay d leap
      in if m = 0 then d + 1
         else if m = 1 then d - 30
         else if m = 2 then d - 58 - leap
         else if m = 3 then d - 89 - leap
         else if m = 4 then d - 119 - leap
         else if m = 5 then d - 150 - leap
         else if m = 6 then d - 180 - leap
         else if m = 7 then d - 211 - leap
         else if m = 8 then d - 242 - leap
         else if m = 9 then d - 272 - leap
         else if m = 10 then d - 303 - leap
         else d - 333 - leap)"

definition to_integer :: "rat \<Rightarrow> int" where
  "to_integer x = (if 0 \<le> x then \<lfloor>x\<rfloor> else \<lceil>x\<rceil>)"

definition msPerDay :: int where
  "msPerDay = 86400000"

definition prev_day :: "int \<times> int \<Rightarrow> int \<times> int" where
  "prev_day p =
     (case p of (y, d) \<Rightarrow> if 0 < d then (y, d - 1) else (y - 1, DaysInYear (y - 1) - 1))"

definition next_day :: "int \<times> int \<Rightarrow> int \<times> int" where
  "next_day p =
     (case p of (y, d) \<Rightarrow> if d + 1 < DaysInYear y then (y, d + 1) else (y + 1, 0))"

fun days_forward :: "nat \<Rightarrow> int \<times> int \<Rightarrow> int \<times> int" where
  "days_forward 0 p = p"
| "days_forward (Suc n) p = days_forward n (next_day p)"

fun days_backward :: "nat \<Rightarrow> int \<times> int \<Rightarrow> int \<times> int" where
  "days_backward 0 p = p"
| "days_backward (Suc n) p = days_backward n (prev_day p)"

definition shift_days :: "int \<Rightarrow> int \<times> int \<Rightarrow> int \<times> int" where
  "shift_days s p = (if 0 \<le> s then days_forward (nat s) p else days_backward (nat (- s)) p)"

definition Date_day0_getDate :: "host \<Rightarrow> jsnum \<Rightarrow> jsnum \<Rightarrow> jsnum" where
  "Date_day0_getDate h year month =
     (case (year, month) of
        (Fin y, Fin m) \<Rightarrow>
          let yi = to_integer y;
              mi = to_integer m;
              yr = (if 0 \<le> yi \<and> yi \<le> 99 then 1900 + yi else yi);
              ym = yr + mi div 12;
              mn = mi mod 12;
              day0 = prev_day (ym, month_start mn (InLeapYear ym));
              t = (DayFromYear (fst day0) + snd day0) * msPerDay;
              tv = t - zone_offset_of_local h t
          in if \<bar>tv\<bar> \<le> 8640000000000000 then
               (let local = tv + zone_offset_of_utc h tv;
                    shown = shift_days ((local - t) div msPerDay) day0
                in Fin (of_int (DateFromDay (snd shown) (InLeapYear (fst shown)))))
             else NaN
      | _ \<Rightarrow> NaN)"

section \<open>The reconciliation mapper\<close>

text \<open>
  What the \<open>accounts\<close> member of the parsed JSON can be: absent or null; an array,
  each entry an account object or null (an entry that is a number, a string or a boolean
  reads like an object without fields); or a value that is not an array, of which only
  the truthiness matters.
\<close>

datatype accounts_json =
    AccountsAbsent
  | AccountsArray "AccountData option list"
  | AccountsOther bool

record ParsedJson =
  raw_bank_name :: "string option"
  statement_month :: "jsnum option"
  statement_year :: "jsnum option"
  raw_accounts :: accounts_json

text \<open>
  \<open>ADLSResponse\<close>: the fields the mapper reads. An absent or null field is \<open>None\<close>.
\<close>

record ADLSResponse =
  parsed_json :: "ParsedJson option"
  batch_id :: "string option"
  raw_filename :: "string option"

record ReconciliationRow =
  case_id :: string
  document_name :: string
  iso_email :: string
  bank_name :: string
  month_year :: string
  first_transaction_date :: string
  last_transaction_date :: string
  accounts :: "MappedAccount list"
  filename :: string

text \<open>
  What the mapper can throw: its own \<open>Error('Invalid ADLS data structure: missing
  parsed_json')\<close>, and the engine's \<open>TypeError\<close> for \<open>.map\<close> on a value that has
  no such function and for reading a field of null.
\<close>

datatype error = MissingParsedJson | TypeError

definition monthMap :: "(string \<times> string) list" where
  "monthMap =
     [(''1'', ''JAN''), (''2'', ''FEB''), (''3'', ''MAR''), (''4'', ''APR''),
      (''5'', ''MAY''), (''6'', ''JUN''), (''7'', ''JUL''), (''8'', ''AUG''),
      (''9'', ''SEP''), (''10'', ''OCT''), (''11'', ''NOV''), (''12'', ''DEC'')]"

text \<open>
  \<open>getMonthAbbreviation\<close>. Its one caller passes \<open>parsed_json.statement_month || 1\<close>,
  which the interface \<open>ADLSResponse\<close> declares a number, and the model takes a number:
  \<open>String(month)\<close> is then never the name of a member that the object literal
  \<open>monthMap\<close> inherits, so that \<open>monthMap[monthStr]\<close> is a lookup among the twelve
  keys. All twelve values are non-empty strings, hence truthy for \<open>||\<close>.
\<close>

definition getMonthAbbreviation :: "host \<Rightarrow> jsnum \<Rightarrow> string" where
  "getMonthAbbreviation h month =
     (let monthStr = Number_toString h month
      in case map_of monthMap monthStr of Some abbr \<Rightarrow> abbr | None \<Rightarrow> monthStr)"

text \<open>\<open>v || d\<close> on an optional number and on a number.\<close>

definition opt_num_or :: "jsnum option \<Rightarrow> jsnum \<Rightarrow> jsnum" where
  "opt_num_or v d = (case v of None \<Rightarrow> d | Some n \<Rightarrow> if num_truthy n then n else d)"

definition num_or :: "jsnum \<Rightarrow> jsnum \<Rightarrow> jsnum" where
  "num_or n d = (if num_truthy n then n else d)"

definition opt_num_val :: "jsnum option \<Rightarrow> jsval" where
  "opt_num_val v = (case v of None \<Rightarrow> JUndefined | Some n \<Rightarrow> JNum n)"

text \<open>\<open>s.replace(" ", "_")\<close>: the first occurrence only.\<close>

fun replace_first :: "char \<Rightarrow> string \<Rightarrow> string \<Rightarrow> string" where
  "replace_first c r [] = []"
| "replace_first c r (x # xs) = (if x = c then r @ xs else x # replace_first c r xs)"

definition is_lower :: "char \<Rightarrow> bool" where
  "is_lower c = (97 \<le> (of_char c :: nat) \<and> (of_char c :: nat) \<le> 122)"

definition ci_eq :: "char \<Rightarrow> char \<Rightarrow> bool" where
  "ci_eq a b =
     (a = b \<or> (is_lower a \<and> (of_char a :: nat) = of_char b + 32)
            \<or> (is_lower b \<and> (of_char b :: nat) = of_char a + 32))"

text \<open>\<open>s.replace(/_parsing_result\.json$/i, '')\<close>\<close>

definition strip_parsing_suffix :: "string \<Rightarrow> string" where
  "strip_parsing_suffix s =
     (let pat = ''_parsing_result.json''; k = length s - length pat
      in if length pat \<le> length s \<and> list_all2 ci_eq (drop k s) pat then take k s else s)"

text \<open>
  \<open>safeParseInt(parsed_json.statement_month) || 1\<close> and
  \<open>safeParseInt(parsed_json.statement_year) || 2025\<close>
\<close>

definition period_month :: "ParsedJson \<Rightarrow> jsnum" where
  "period_month pj = num_or (safeParseInt (opt_num_val (statement_month pj))) (Fin 1)"

definition period_year :: "ParsedJson \<Rightarrow> jsnum" where
  "period_year pj = num_or (safeParseInt (opt_num_val (statement_year pj))) (Fin 2025)"

text \<open>The template \<open>CASE-${Date.now()}\<close>.\<close>

definition fallback_case_id :: "host \<Rightarrow> string" where
  "fallback_case_id h = ''CASE-'' @ Number_toString h (Fin (of_nat (date_now h)))"

text \<open>\<open>(parsed_json.accounts || []).map((account) => mapAccountData(account))\<close>\<close>

fun map_entries :: "AccountData option list \<Rightarrow> error + MappedAccount list" where
  "map_entries [] = Inr []"
| "map_entries (None # rest) = Inl TypeError"
| "map_entries (Some account # rest) =
     (case map_entries rest of
        Inl e \<Rightarrow> Inl e
      | Inr mapped \<Rightarrow> Inr (mapAccountData account # mapped))"

definition map_accounts :: "accounts_json \<Rightarrow> error + MappedAccount list" where
  "map_accounts accs =
     (case accs of
        AccountsAbsent \<Rightarrow> Inr []
      | AccountsOther truthy \<Rightarrow> if truthy then Inl TypeError else Inr []
      | AccountsArray entries \<Rightarrow> map_entries entries)"

definition mapADLSToReconciliationRow ::
    "host \<Rightarrow> ADLSResponse option \<Rightarrow> error + ReconciliationRow" where
  "mapADLSToReconciliationRow h adlsData =
     (case adlsData of
        None \<Rightarrow> Inl MissingParsedJson
      | Some d \<Rightarrow>
          (case parsed_json d of
             None \<Rightarrow> Inl MissingParsedJson
           | Some pj \<Rightarrow>
               let monthYear = getMonthAbbreviation h (opt_num_or (statement_month pj) (Fin 1))
                                 @ '' '' @ Number_toString h (opt_num_or (statement_year pj) (Fin 2025));
                   month = period_month pj;
                   year = period_year pj;
                   lastDay = Date_day0_getDate h year month;
                   firstTransactionDate = Number_toString h month @ ''/1/'' @ Number_toString h year;
                   lastTransactionDate = Number_toString h month @ ''/'' @ Number_toString h lastDay
                                           @ ''/'' @ Number_toString h year;
                   displayFilename = (case raw_filename d of
                                        None \<Rightarrow> []
                                      | Some f \<Rightarrow> if f \<noteq> [] then strip_parsing_suffix f else [])
               in case map_accounts (raw_accounts pj) of
                    Inl e \<Rightarrow> Inl e
                  | Inr mappedAccounts \<Rightarrow>
                  Inr \<lparr> case_id = (case batch_id d of
                                      None \<Rightarrow> fallback_case_id h
                                    | Some b \<Rightarrow> if b \<noteq> [] then b else fallback_case_id h),
                        document_name = ''Statement_'' @ replace_first CHR '' '' ''_'' monthYear @ ''.pdf'',
                        iso_email = [],
                        bank_name = or_empty (raw_bank_name pj),
                        month_year = monthYear,
                        first_transaction_date = firstTransactionDate,
                        last_transaction_date = lastTransactionDate,
                        accounts = mappedAccounts,
                        filename = displayFilename \<rparr>))"

section \<open>The batch loop of \<open>fetchData\<close>\<close>

text \<open>
  \<open>result.data.forEach\<close>: an item without \<open>parsed_json\<close> or without an accounts array
  is skipped before the mapper is called; an item on which the mapper throws is skipped
  by the \<open>catch\<close>; every other item's row is pushed, in order. \<open>clock i\<close> is the reading
  of \<open>Date.now()\<close> while item number \<open>i\<close> is mapped; the rest of the host stays as it
  is.
\<close>

definition has_accounts_array :: "ADLSResponse \<Rightarrow> bool" where
  "has_accounts_array item =
     (case parsed_json item of
        None \<Rightarrow> False
      | Some pj \<Rightarrow> (case raw_accounts pj of AccountsArray entries \<Rightarrow> True | _ \<Rightarrow> False))"

fun forEach_items ::
    "host \<Rightarrow> (nat \<Rightarrow> nat) \<Rightarrow> nat \<Rightarrow> ADLSResponse list \<Rightarrow> ReconciliationRow list" where
  "forEach_items h clock i [] = []"
| "forEach_items h clock i (item # rest) =
     (if \<not> has_accounts_array item then forEach_items h clock (Suc i) rest
      else
        (case mapADLSToReconciliationRow (h\<lparr>date_now := clock i\<rparr>) (Some item) of
           Inr mapped \<Rightarrow> mapped # forEach_items h clock (Suc i) rest
         | Inl _ \<Rightarrow> forEach_items h clock (Suc i) rest))"

definition fetchData_rows ::
    "host \<Rightarrow> (nat \<Rightarrow> nat) \<Rightarrow> ADLSResponse list \<Rightarrow> ReconciliationRow list" where
  "fetchData_rows h clock items = forEach_items h clock 0 items"

section \<open>The calendar of the specification\<close>

text \<open>The number of days of a month of the Gregorian calendar, months counted from 1.\<close>

definition is_leap_year :: "int \<Rightarrow> bool" where
  "is_leap_year y = (y mod 4 = 0 \<and> (y mod 100 \<noteq> 0 \<or> y mod 400 = 0))"

definition days_in_month :: "int \<Rightarrow> int \<Rightarrow> int" where
  "days_in_month y m =
     (if m = 2 then (if is_leap_year y then 29 else 28)
      else if m = 4 \<or> m = 6 \<or> m = 9 \<or> m = 11 then 30
      else 31)"


text \<open>
  The day within the year of the last day of month \<open>m\<close> (1 to 12), which is day 0 of
  the month after it.
\<close>

definition day0_index :: "int \<Rightarrow> int \<Rightarrow> int" where
  "day0_index m leap = (if m = 12 then 364 + leap else month_start m leap - 1)"

text \<open>
  The number of the last day of month \<open>m\<close> of year \<open>y\<close>, in days since the epoch, and
  what it takes of the host's zone for \<open>getDate\<close> to read the local midnight of a day
  back on that same day: the stored instant is valid and the local time it shows has not
  left the day.
\<close>

definition last_day_number :: "int \<Rightarrow> int \<Rightarrow> int" where
  "last_day_number y m = DayFromYear y + day0_index m (InLeapYear y)"

definition zone_keeps_day :: "host \<Rightarrow> int \<Rightarrow> bool" where
  "zone_keeps_day h day =
     (let t = day * msPerDay; tv = t - zone_offset_of_local h t
      in \<bar>tv\<bar> \<le> 8640000000000000 \<and> (tv + zone_offset_of_utc h tv - t) div msPerDay = 0)"

text \<open>
  An item that the batch loop keeps: its \<open>parsed_json\<close> is there, with an accounts array
  none of whose entries is null.
\<close>

definition mappable :: "ADLSResponse \<Rightarrow> bool" where
  "mappable item =
     (case parsed_json item of
        None \<Rightarrow> False
      | Some pj \<Rightarrow>
          (case raw_accounts pj of AccountsArray entries \<Rightarrow> None \<notin> set entries | _ \<Rightarrow> False))"

section \<open>The verdict of the specification\<close>

definition calculated_balance :: "MappedAccount \<Rightarrow> jsnum" where
  "calculated_balance a = js_add (js_sub (starting_balance a) (total_debits a)) (total_credits a)"

text \<open>
  The specification's \<open>round2\<close>: two decimal places, by rounding half away from zero or
  by banker's rounding (half to even) of the difference scaled by 100.
\<close>

definition round_half_away :: "rat \<Rightarrow> int" where
  "round_half_away x = (if 0 \<le> x then \<lfloor>x + 1 / 2\<rfloor> else - \<lfloor>- x + 1 / 2\<rfloor>)"

definition spec_round2_half_away :: "jsnum \<Rightarrow> jsnum" where
  "spec_round2_half_away d =
     js_div (case js_mul d (Fin 100) of Fin p \<Rightarrow> Fin (of_int (round_half_away p)) | n \<Rightarrow> n)
            (Fin 100)"

definition spec_round2_half_even :: "jsnum \<Rightarrow> jsnum" where
  "spec_round2_half_even d =
     js_div (case js_mul d (Fin 100) of Fin p \<Rightarrow> Fin (of_int (round_half_even p)) | n \<Rightarrow> n)
            (Fin 100)"

definition no_NaN_fields :: "MappedAccount \<Rightarrow> bool" where
  "no_NaN_fields m =
     (starting_balance m \<noteq> NaN \<and> ending_balance m \<noteq> NaN \<and> total_credits m \<noteq> NaN
      \<and> total_debits m \<noteq> NaN \<and> average_balance m \<noteq> NaN \<and> no_of_deposits m \<noteq> NaN
      \<and> no_of_withdrawals m \<noteq> NaN \<and> mca_withdrawals m \<noteq> NaN
      \<and> returned_items_count m \<noteq> NaN \<and> returned_items_days m \<noteq> NaN
      \<and> overdraft_days m \<noteq> NaN)"

section \<open>Example inputs\<close>

definition example_account :: "jsnum \<Rightarrow> jsnum \<Rightarrow> jsnum \<Rightarrow> jsnum \<Rightarrow> MappedAccount" where
  "example_account starting debits credits ending =
     \<lparr> account_number = ''1001'', account_type = ''Checking'',
       starting_balance = starting, ending_balance = ending,
       total_credits = credits, total_debits = debits,
       average_balance = Fin 0, no_of_deposits = Fin 0, no_of_withdrawals = Fin 0,
       mca_withdrawals = Fin 0, returned_items_count = Fin 0, returned_items_days = Fin 0,
       overdraft_days = Fin 0 \<rparr>"



text \<open>
  A host for the examples: the clock reads \<open>now\<close>, the only number whose text the
  examples ask it for is one half, and the zone is UTC.
\<close>

definition example_host :: "nat \<Rightarrow> host" where
  "example_host now =
     \<lparr> date_now = now, number_text = (\<lambda>r. ''0.5''),
       zone_offset_of_local = (\<lambda>t. 0), zone_offset_of_utc = (\<lambda>tv. 0) \<rparr>"

text \<open>
  The same host in the zone \<open>Pacific/Kiritimati\<close> around the end of 1994: ten hours
  west of UTC until the instant 1994-12-31 10:00 UTC and fourteen hours east from then
  on, so that the local day 31 December 1994 does not exist.
\<close>

definition kiritimati_host :: "nat \<Rightarrow> host" where
  "kiritimati_host now =
     \<lparr> date_now = now, number_text = (\<lambda>r. ''0.5''),
       zone_offset_of_local = (\<lambda>t. if t < 788918400000 then - 36000000 else 50400000),
       zone_offset_of_utc = (\<lambda>tv. if tv < 788868000000 then - 36000000 else 50400000) \<rparr>"

definition example_raw_account :: "jsval \<Rightarrow> AccountData" where
  "example_raw_account withdrawals =
     \<lparr> raw_account_number = Some ''1001'', raw_account_type = Some ''Checking'',
       beginning_balance = JNum (Fin 100), raw_ending_balance = JStr ''1,234.50'',
       total_deposits = JNum (Fin 0), total_withdrawals = withdrawals,
       avg_daily_balance = JStr ''NA'', raw_no_of_deposits = JStr ''3'',
       raw_no_of_withdrawals = JNum (Fin 2), raw_mca_withdrawals = JUndefined,
       raw_returned_items_count = JUndefined, raw_returned_items_days = JNull,
       raw_overdraft_days = JUndefined \<rparr>"

definition example_detail ::
    "jsnum option \<Rightarrow> jsnum option \<Rightarrow> accounts_json \<Rightarrow> ParsedJson" where
  "example_detail month year accs =
     \<lparr> raw_bank_name = Some ''Chase'', statement_month = month, statement_year = year,
       raw_accounts = accs \<rparr>"

definition example_statement ::
    "jsnum option \<Rightarrow> jsnum option \<Rightarrow> accounts_json \<Rightarrow> string option \<Rightarrow> ADLSResponse" where
  "example_statement month year accs bid =
     \<lparr> parsed_json = Some (example_detail month year accs), batch_id = bid,
       raw_filename = Some ''chase_parsing_result.json'' \<rparr>"

definition example_broken_envelope :: ADLSResponse where
  "example_broken_envelope =
     \<lparr> parsed_json = None, batch_id = Some ''parsing_2'', raw_filename = None \<rparr>"

text \<open>A clock that gives the same reading to every item of a batch.\<close>

definition frozen_clock :: "nat \<Rightarrow> nat" where
  "frozen_clock i = 1700000000000"

section \<open>Evaluating the number model\<close>

lemma bit_length_0 [simp]: "bit_length 0 = 0"
  by (simp add: bit_length.simps)

lemma bit_length_Suc_0 [simp]: "bit_length (Suc 0) = 1"
  by (simp add: bit_length.simps)

lemma bit_length_1 [simp]: "bit_length 1 = 1"
  by (simp add: bit_length.simps)

lemma bit_length_Bit0 [simp]: "bit_length (numeral (Num.Bit0 k)) = Suc (bit_length (numeral k))"
  by (subst bit_length.simps) simp

lemma bit_length_Bit1 [simp]: "bit_length (numeral (Num.Bit1 k)) = Suc (bit_length (numeral k))"
  by (subst bit_length.simps) simp

lemma floor_rat_numeral [simp]: "\<lfloor>numeral a / numeral b :: rat\<rfloor> = numeral a div numeral b"
  using floor_divide_of_int_eq [of "numeral a" "numeral b", where ?'a = rat] by simp

lemma floor_rat_neg_numeral [simp]:
  "\<lfloor>- (numeral a / numeral b) :: rat\<rfloor> = (- numeral a) div numeral b"
  using floor_divide_of_int_eq [of "- numeral a" "numeral b", where ?'a = rat] by simp

lemma floor_rat_one_numeral [simp]: "\<lfloor>1 / numeral b :: rat\<rfloor> = 1 div numeral b"
  using floor_divide_of_int_eq [of 1 "numeral b", where ?'a = rat] by simp

lemma ceiling_rat_numeral [simp]:
  "\<lceil>numeral a / numeral b :: rat\<rceil> = - ((- numeral a) div numeral b)"
  unfolding ceiling_def by simp

lemmas fl_eval = fl_def ilog2_def pow2_def round_half_even_def Let_def

lemma fl_0_005: "fl (5 / 1000) = Fin (5764607523034235 / 2 ^ 60)"
  by (simp add: fl_eval)

lemma fl_0_001: "fl (1 / 1000) = Fin (1152921504606847 / 2 ^ 60)"
  by (simp add: fl_eval)

lemma fl_0_006: "fl (6 / 1000) = Fin (3458764513820541 / 2 ^ 59)"
  by (simp add: fl_eval)

lemma fl_not_NaN [simp]: "fl x \<noteq> NaN"
  by (simp add: fl_def Let_def)

lemma fl_minus: "fl (- x) = js_neg (fl x)"
  by (simp add: fl_def Let_def js_neg_def)

text \<open>
  Two checks of the model against the language: \<open>0.1 + 0.2\<close> is
  \<open>0.30000000000000004\<close> and not \<open>0.3\<close>, and a power of two is its own rounding.
\<close>

lemma one_tenth_plus_two_tenths:
  "js_add (fl (1 / 10)) (fl (2 / 10)) = Fin (1351079888211149 / 2 ^ 52)
   \<and> fl (3 / 10) = Fin (5404319552844595 / 2 ^ 54)
   \<and> \<not> js_strict_eq (js_add (fl (1 / 10)) (fl (2 / 10))) (fl (3 / 10))"
  by (simp add: fl_eval js_strict_eq_def)

lemma fl_exact_examples: "fl 100 = Fin 100 \<and> fl (1 / 1024) = Fin (1 / 1024) \<and> fl 2025 = Fin 2025"
  by (simp add: fl_eval)

section \<open>Bounds on rounding\<close>

lemma bit_length_bounds: "0 < n \<Longrightarrow> 2 ^ (bit_length n - 1) \<le> n \<and> n < 2 ^ bit_length n"
proof (induction n rule: bit_length.induct)
  case (1 n)
  show ?case
  proof (cases "n div 2 = 0")
    case True
    with 1(2) have "n = 1" by presburger
    then show ?thesis by simp
  next
    case False
    then have pos: "0 < n div 2" by simp
    from 1(1) [OF _ pos] 1(2)
    have ih: "2 ^ (bit_length (n div 2) - 1) \<le> n div 2" "n div 2 < 2 ^ bit_length (n div 2)"
      by auto
    have bl: "bit_length n = Suc (bit_length (n div 2))"
      using 1(2) by (subst bit_length.simps) simp
    have blpos: "0 < bit_length (n div 2)"
      using pos by (subst bit_length.simps) simp
    then have e: "2 ^ (bit_length n - 1) = 2 * (2::nat) ^ (bit_length (n div 2) - 1)"
      by (cases "bit_length (n div 2)") (simp_all add: bl)
    have "2 * (2::nat) ^ (bit_length (n div 2) - 1) \<le> 2 * (n div 2)" using ih(1) by simp
    also have "\<dots> \<le> n" by simp
    finally have lo: "2 ^ (bit_length n - 1) \<le> n" unfolding e .
    have "n < 2 * (n div 2) + 2" by presburger
    also have "\<dots> \<le> 2 * 2 ^ bit_length (n div 2)" using ih(2) by simp
    finally have hi: "n < 2 ^ bit_length n" by (simp add: bl)
    from lo hi show ?thesis ..
  qed
qed

lemma pow2_powi: "pow2 e = 2 powi e"
  by (simp add: pow2_def power_int_def power_one_over)

lemma pow2_pos: "0 < pow2 e"
  by (simp add: pow2_powi)

lemma pow2_mono: "a \<le> b \<Longrightarrow> pow2 a \<le> pow2 b"
  by (simp add: pow2_powi power_int_increasing)

lemma pow2_add: "pow2 (a + b) = pow2 a * pow2 b"
  by (simp add: pow2_powi power_int_add)

lemma bit_length_upper: "n < 2 ^ bit_length n"
  using bit_length_bounds [of n] by (cases "n = 0") simp_all

lemma bit_length_lower: "0 < n \<Longrightarrow> 2 ^ (bit_length n - 1) \<le> n"
  using bit_length_bounds [of n] by simp

lemma bit_length_pos: "0 < n \<Longrightarrow> 0 < bit_length n"
  by (subst bit_length.simps) simp

lemma ilog2_ge_1:
  assumes "1 \<le> x"
  shows "pow2 (ilog2 x) \<le> x" and "x < pow2 (ilog2 x + 1)"
proof -
  define n where "n = nat \<lfloor>x\<rfloor>"
  have n: "0 < n" using assms by (simp add: n_def)
  have nx: "(of_nat n :: rat) = of_int \<lfloor>x\<rfloor>" using assms by (simp add: n_def)
  have il: "ilog2 x = int (bit_length n) - 1"
    using assms by (simp add: ilog2_def n_def)
  have p1: "pow2 (ilog2 x) = of_nat (2 ^ (bit_length n - 1))"
    using bit_length_pos [OF n] by (simp add: il pow2_def nat_diff_distrib)
  have p2: "pow2 (ilog2 x + 1) = of_nat (2 ^ bit_length n)"
    by (simp add: il pow2_def)
  have "(of_nat (2 ^ (bit_length n - 1)) :: rat) \<le> of_nat n"
    using bit_length_lower [OF n] by (rule of_nat_mono)
  also have "\<dots> \<le> x" by (simp add: nx)
  finally show "pow2 (ilog2 x) \<le> x" by (simp only: p1)
  have "x < of_int \<lfloor>x\<rfloor> + 1" using floor_correct [of x] by simp
  also have "\<dots> = of_nat (n + 1)" by (simp add: nx)
  also have "\<dots> \<le> of_nat (2 ^ bit_length n)"
  proof (rule of_nat_mono)
    show "n + 1 \<le> 2 ^ bit_length n" using bit_length_upper [of n] by linarith
  qed
  finally show "x < pow2 (ilog2 x + 1)" by (simp only: p2)
qed

lemma ilog2_lt_1:
  assumes "0 < x" and "x < 1"
  shows "pow2 (ilog2 x) \<le> x" and "x < pow2 (ilog2 x + 1)"
proof -
  define k where "k = \<lceil>1 / x\<rceil> - 1"
  define n where "n = nat k"
  have inv: "1 < 1 / x" using assms by simp
  have k1: "1 \<le> k" using inv by (simp add: k_def less_ceiling_iff)
  have klt: "of_int k < 1 / x"
    using ceiling_correct [of "1 / x"] by (simp add: k_def)
  have kge: "1 / x \<le> of_int k + 1"
    using ceiling_correct [of "1 / x"] by (simp add: k_def)
  have n: "0 < n" using k1 by (simp add: n_def)
  have nk: "(of_nat n :: rat) = of_int k" using k1 by (simp add: n_def)
  have il: "ilog2 x = - int (bit_length n)"
    using assms by (simp add: ilog2_def n_def k_def)
  have p1: "pow2 (ilog2 x) = 1 / of_nat (2 ^ bit_length n)"
    using bit_length_pos [OF n] by (simp add: il pow2_def)
  have p2: "pow2 (ilog2 x + 1) = 1 / of_nat (2 ^ (bit_length n - 1))"
    using bit_length_pos [OF n]
    by (cases "bit_length n") (simp_all add: il pow2_def)
  have "(of_nat (n + 1) :: rat) \<le> of_nat (2 ^ bit_length n)"
  proof (rule of_nat_mono)
    show "n + 1 \<le> 2 ^ bit_length n" using bit_length_upper [of n] by linarith
  qed
  then have "1 / x \<le> of_nat (2 ^ bit_length n)"
    using kge by (simp add: nk)
  then have "1 / of_nat (2 ^ bit_length n) \<le> x"
    using assms(1) by (simp add: field_simps)
  then show "pow2 (ilog2 x) \<le> x" by (simp only: p1)
  have "(of_nat (2 ^ (bit_length n - 1)) :: rat) \<le> of_nat n"
    using bit_length_lower [OF n] by (rule of_nat_mono)
  then have "(of_nat (2 ^ (bit_length n - 1)) :: rat) \<le> of_int k"
    by (simp only: nk)
  then have "of_nat (2 ^ (bit_length n - 1)) < 1 / x"
    using klt by (rule le_less_trans)
  then have "x < 1 / of_nat (2 ^ (bit_length n - 1))"
    using assms(1) by (simp add: field_simps)
  then show "x < pow2 (ilog2 x + 1)" by (simp only: p2)
qed

lemma ilog2_lower: "0 < x \<Longrightarrow> pow2 (ilog2 x) \<le> x"
  using ilog2_ge_1(1) [of x] ilog2_lt_1(1) [of x] by (cases "1 \<le> x") auto

lemma ilog2_upper: "0 < x \<Longrightarrow> x < pow2 (ilog2 x + 1)"
  using ilog2_ge_1(2) [of x] ilog2_lt_1(2) [of x] by (cases "1 \<le> x") auto

lemma round_half_even_ge_floor: "\<lfloor>r\<rfloor> \<le> round_half_even r"
  by (simp add: round_half_even_def Let_def)

lemma fl_lower:
  assumes "pow2 e \<le> \<bar>x\<bar>" and "- 1022 \<le> e" and "fl x = Fin y"
  shows "pow2 e \<le> \<bar>y\<bar>"
proof -
  have xpos: "0 < \<bar>x\<bar>" using assms(1) pow2_pos [of e] by linarith
  then have x0: "x \<noteq> 0" by simp
  define E where "E = ilog2 \<bar>x\<bar>"
  have "pow2 e < pow2 (E + 1)"
    using assms(1) ilog2_upper [OF xpos] by (simp add: E_def)
  then have eE: "e \<le> E"
    using pow2_mono [of "E + 1" e] by (cases "e \<le> E") auto
  then have q: "max E (- 1022) - 52 = E - 52" using assms(2) by simp
  define m where "m = round_half_even (\<bar>x\<bar> / pow2 (E - 52))"
  have "pow2 E = pow2 (E - 52) * 2 ^ 52"
    using pow2_add [of "E - 52" 52] by (simp add: pow2_def)
  then have "2 ^ 52 * pow2 (E - 52) \<le> \<bar>x\<bar>"
    using ilog2_lower [OF xpos] by (simp add: E_def mult.commute)
  then have "(2 ^ 52 :: rat) \<le> \<bar>x\<bar> / pow2 (E - 52)"
    using pow2_pos [of "E - 52"] by (simp add: pos_le_divide_eq)
  then have f52: "(2 ^ 52 :: int) \<le> \<lfloor>\<bar>x\<bar> / pow2 (E - 52)\<rfloor>"
    by (simp add: le_floor_iff)
  have "\<lfloor>\<bar>x\<bar> / pow2 (E - 52)\<rfloor> \<le> m"
    unfolding m_def by (rule round_half_even_ge_floor)
  with f52 have m52: "2 ^ 52 \<le> m" by (rule order_trans)
  define v where "v = of_int m * pow2 (E - 52)"
  have vpos: "0 < v"
    using m52 pow2_pos [of "E - 52"] by (simp add: v_def)
  have q': "max (ilog2 \<bar>x\<bar>) (- 1022) - 52 = ilog2 \<bar>x\<bar> - 52"
    using q by (simp only: E_def)
  have "fl x = (if pow2 1024 \<le> v then (if x < 0 then NegInf else PosInf)
                else Fin (if x < 0 then - v else v))"
    unfolding fl_def Let_def v_def m_def E_def q' using x0 by (simp only: if_False)
  with assms(3) have "y = - v \<or> y = v" by (auto split: if_splits)
  with vpos have y: "\<bar>y\<bar> = of_int m * pow2 (E - 52)" by (auto simp: v_def)
  have "pow2 E = 2 ^ 52 * pow2 (E - 52)"
    using pow2_add [of "E - 52" 52] by (simp add: pow2_def)
  also have "\<dots> \<le> of_int m * pow2 (E - 52)"
  proof -
    have "(2 ^ 52 :: rat) \<le> of_int m" using m52 by (metis of_int_le_iff of_int_numeral of_int_power)
    then show ?thesis using pow2_pos [of "E - 52"] by (simp add: mult_right_mono)
  qed
  finally have "pow2 E \<le> \<bar>y\<bar>" by (simp add: y)
  then show ?thesis using pow2_mono [OF eE] by linarith
qed

lemma div100_small:
  assumes "js_lt (Math_abs (js_div (Fin (of_int k)) (Fin 100))) (fl (5 / 1000))"
  shows "k = 0"
proof (rule ccontr)
  assume k: "k \<noteq> 0"
  then have "1 \<le> \<bar>k\<bar>" by simp
  then have "(1::rat) \<le> \<bar>of_int k\<bar>" by (metis of_int_1 of_int_abs of_int_le_iff)
  then have big: "pow2 (- 7) \<le> \<bar>of_int k / 100 :: rat\<bar>" by (simp add: pow2_def)
  have d: "js_div (Fin (of_int k)) (Fin 100) = fl (of_int k / 100)" by simp
  show False
  proof (cases "fl (of_int k / 100)")
    case NaN
    then show False by (simp add: fl_not_NaN)
  next
    case PosInf
    with assms show False unfolding d fl_0_005 by (simp add: Math_abs_def)
  next
    case NegInf
    with assms show False unfolding d fl_0_005 by (simp add: Math_abs_def)
  next
    case (Fin z)
    from fl_lower [OF big _ Fin] have "pow2 (- 7) \<le> \<bar>z\<bar>" by simp
    then have "1 / 128 \<le> \<bar>z\<bar>" by (simp add: pow2_def)
    moreover from assms have "\<bar>z\<bar> < 5764607523034235 / 2 ^ 60"
      unfolding d fl_0_005 Fin by (simp add: Math_abs_def)
    ultimately show False by simp
  qed
qed

lemma code_round2_cases:
  "code_round2 d = NaN \<or> code_round2 d = PosInf \<or> code_round2 d = NegInf
     \<or> (\<exists>k. code_round2 d = js_div (Fin (of_int k)) (Fin 100))"
proof (cases d)
  case (Fin x)
  show ?thesis
  proof (cases "fl (x * 100)")
    case (Fin y)
    then show ?thesis using \<open>d = Fin x\<close> 
      by (auto simp: code_round2_def Math_round_def simp del: js_div.simps)
  qed (simp_all add: code_round2_def Math_round_def signed_inf_def is_negative_def \<open>d = Fin x\<close>)
qed (simp_all add: code_round2_def Math_round_def signed_inf_def is_negative_def)

lemma code_round2_small_is_zero:
  assumes "js_lt (Math_abs (code_round2 d)) (fl (5 / 1000))"
  shows "code_round2 d = Fin 0"
proof -
  from code_round2_cases [of d] assms obtain k where k: "code_round2 d = js_div (Fin (of_int k)) (Fin 100)"
    unfolding fl_0_005 by (auto simp: Math_abs_def)
  with assms have "k = 0" using div100_small [of k] by simp
  with k show ?thesis by (simp add: fl_def)
qed

section \<open>Evaluating the string model\<close>

lemmas str_eval = trim_def strip_commas_def is_ws_def is_digit_def digit_val_def digits_val_def
  take_sign_def is_prefix_def exponent_part_def pow10_def parseFloat_def parseInt_def
  safeParseFloat_def safeParseInt_def isNaN_def signed_inf_def

section \<open>The reconciliation verdict\<close>

lemma calculateDifference_unfold:
  "calculateDifference a =
     (if js_lt (Math_abs (code_round2 (js_sub (ending_balance a) (calculated_balance a)))) (fl (5 / 1000))
      then Fin 0
      else code_round2 (js_sub (ending_balance a) (calculated_balance a)))"
  by (simp add: calculateDifference_def code_round2_def calculated_balance_def Let_def)

lemma calculateDifference_code_round2:
  "calculateDifference a = code_round2 (js_sub (ending_balance a) (calculated_balance a))"
  using code_round2_small_is_zero [of "js_sub (ending_balance a) (calculated_balance a)"]
  by (simp add: calculateDifference_unfold)

lemma code_round2_0_001: "code_round2 (fl (1 / 1000)) = Fin 0"
  unfolding fl_0_001 by (simp add: code_round2_def Math_round_def fl_eval)

lemma code_round2_0_006: "code_round2 (fl (6 / 1000)) = Fin (5764607523034235 / 2 ^ 59)"
  unfolding fl_0_006 by (simp add: code_round2_def Math_round_def fl_eval)

lemma isHarmonized_iff:
  "isHarmonized (Some a) \<longleftrightarrow>
     js_lt (Math_abs (code_round2 (js_sub (ending_balance a) (calculated_balance a)))) (fl (5 / 1000))"
proof -
  have z: "js_lt (Math_abs (Fin 0)) (fl (5 / 1000))"
    unfolding fl_0_005 by (simp add: Math_abs_def)
  show ?thesis
    using z
    by (auto simp: isHarmonized_def displayed_difference_def calculateDifference_unfold
        js_strict_eq_def)
qed

text \<open>The nearest integer, a tie going up; and where the three roundings agree.\<close>

lemma floor_bounds: "of_int \<lfloor>x\<rfloor> \<le> (x::rat)" "x < of_int \<lfloor>x\<rfloor> + 1"
  using floor_correct [of x] by simp_all

lemma floor_half_nearest:
  "of_int \<lfloor>p + 1 / 2\<rfloor> - 1 / 2 \<le> p \<and> p < of_int \<lfloor>p + 1 / 2 :: rat\<rfloor> + 1 / 2"
  using floor_bounds [of "p + 1 / 2"] by linarith

lemma floor_half_zero_iff: "\<lfloor>p + 1 / 2 :: rat\<rfloor> = 0 \<longleftrightarrow> - 1 / 2 \<le> p \<and> p < 1 / 2"
  by (simp add: floor_eq_iff) linarith

lemma round_half_even_off_tie:
  assumes "p - of_int \<lfloor>p\<rfloor> \<noteq> 1 / 2"
  shows "round_half_even p = \<lfloor>p + 1 / 2\<rfloor>"
proof (cases "p - of_int \<lfloor>p\<rfloor> < 1 / 2")
  case True
  have "\<lfloor>p + 1 / 2\<rfloor> = \<lfloor>p\<rfloor>"
    using True floor_bounds [of p] by (intro floor_unique) linarith+
  then show ?thesis using True by (simp add: round_half_even_def Let_def)
next
  case False
  with assms have gt: "1 / 2 < p - of_int \<lfloor>p\<rfloor>" by simp
  have "\<lfloor>p + 1 / 2\<rfloor> = \<lfloor>p\<rfloor> + 1"
    using gt floor_bounds [of p] by (auto simp: floor_eq_iff)
  then show ?thesis using gt False by (simp add: round_half_even_def Let_def)
qed

lemma round_half_away_off_tie:
  assumes "p - of_int \<lfloor>p\<rfloor> \<noteq> 1 / 2"
  shows "round_half_away p = \<lfloor>p + 1 / 2\<rfloor>"
proof (cases "0 \<le> p")
  case True
  then show ?thesis by (simp add: round_half_away_def)
next
  case False
  define k where "k = \<lfloor>p + 1 / 2\<rfloor>"
  have k: "of_int k \<le> p + 1 / 2" "p + 1 / 2 < of_int k + 1"
    unfolding k_def by (rule floor_bounds)+
  have "of_int k \<noteq> p + 1 / 2"
  proof
    assume e: "of_int k = p + 1 / 2"
    then have p: "p = of_int (k - 1) + 1 / 2" by simp
    have "\<lfloor>p\<rfloor> = k - 1" unfolding p by (intro floor_unique) simp_all
    with p assms show False by simp
  qed
  with k(1) have lt: "of_int k < p + 1 / 2" by simp
  have "\<lfloor>- p + 1 / 2\<rfloor> = - k"
    using lt k(2) by (auto simp: floor_eq_iff)
  then show ?thesis using False by (simp add: round_half_away_def k_def)
qed

lemma spec_round2_off_tie:
  assumes "js_mul d (Fin 100) = Fin p" and "p - of_int \<lfloor>p\<rfloor> \<noteq> 1 / 2"
  shows "spec_round2_half_away d = code_round2 d" and "spec_round2_half_even d = code_round2 d"
  using assms
  by (simp_all add: spec_round2_half_away_def spec_round2_half_even_def code_round2_def
      Math_round_def round_half_away_off_tie round_half_even_off_tie del: js_div.simps)

lemma code_round2_finite_product:
  assumes "js_mul d (Fin 100) = Fin p"
  shows "code_round2 d = fl (of_int \<lfloor>p + 1 / 2\<rfloor> / 100)"
  using assms by (simp add: code_round2_def Math_round_def)

lemma isHarmonized_finite_product:
  assumes "js_mul (js_sub (ending_balance a) (calculated_balance a)) (Fin 100) = Fin p"
  shows "isHarmonized (Some a) \<longleftrightarrow> - 1 / 2 \<le> p \<and> p < 1 / 2"
proof -
  let ?k = "\<lfloor>p + 1 / 2\<rfloor>"
  have r: "code_round2 (js_sub (ending_balance a) (calculated_balance a))
             = js_div (Fin (of_int ?k)) (Fin 100)"
    using assms by (simp add: code_round2_def Math_round_def)
  have "isHarmonized (Some a) \<longleftrightarrow> ?k = 0"
  proof
    assume "isHarmonized (Some a)"
    then show "?k = 0"
      unfolding isHarmonized_iff r by (rule div100_small)
  next
    assume "?k = 0"
    then show "isHarmonized (Some a)"
      unfolding isHarmonized_iff r fl_0_005 by (simp add: Math_abs_def fl_def)
  qed
  then show ?thesis by (simp only: floor_half_zero_iff)
qed

text \<open>
  The worked example of the specification: with a starting balance of 1780.44, debits of
  152330.52, credits of 151000.00 and an ending balance of 449.92, the raw difference
  is rounding noise of about \<open>-1.28e-11\<close> and the account is reconciled; with an ending
  balance of 500.00 the difference is 50.08 and it is not.
\<close>

lemmas verdict_eval = isHarmonized_def displayed_difference_def calculateDifference_def
  example_account_def calculated_balance_def js_sub_def js_neg_def js_strict_eq_def
  Math_round_def Math_abs_def

lemma statement_example_noise:
  "js_sub (fl (44992 / 100))
      (calculated_balance
         (example_account (fl (178044 / 100)) (fl (15233052 / 100)) (Fin 151000) (fl (44992 / 100))))
     = Fin (- (225 / 2 ^ 44))"
  by (simp add: verdict_eval fl_eval)

lemma statement_example_reconciled:
  "isHarmonized
     (Some (example_account (fl (178044 / 100)) (fl (15233052 / 100)) (Fin 151000) (fl (44992 / 100))))"
  by (simp add: verdict_eval fl_eval)

lemma statement_example_not_reconciled:
  "calculateDifference
      (example_account (fl (178044 / 100)) (fl (15233052 / 100)) (Fin 151000) (Fin 500))
     = fl (5008 / 100)
   \<and> \<not> isHarmonized
      (Some (example_account (fl (178044 / 100)) (fl (15233052 / 100)) (Fin 151000) (Fin 500)))"
  by (simp add: verdict_eval fl_eval)

text \<open>
  C1, as the claim states it, fails: the code does not round as the specification's
  \<open>round2\<close> does. An account with credits of 1 and an ending balance of 0.625 has the
  raw difference -0.375; the code shows -0.37, where rounding half away from zero and
  banker's rounding both give -0.38. The verdict follows: a raw difference of minus
  the number 0.005 is reconciled by the code and not under rounding half away from zero;
  the number 0.005 itself is not reconciled by the code and is under banker's rounding.
\<close>

theorem verdict_rounding_counterexample:
  "js_sub (ending_balance (example_account (Fin 0) (Fin 0) (Fin 1) (Fin (5 / 8))))
          (calculated_balance (example_account (Fin 0) (Fin 0) (Fin 1) (Fin (5 / 8))))
     = Fin (- (3 / 8))
   \<and> calculateDifference (example_account (Fin 0) (Fin 0) (Fin 1) (Fin (5 / 8))) = fl (- (37 / 100))
   \<and> spec_round2_half_away (Fin (- (3 / 8))) = fl (- (38 / 100))
   \<and> spec_round2_half_even (Fin (- (3 / 8))) = fl (- (38 / 100))
   \<and> fl (- (37 / 100)) \<noteq> fl (- (38 / 100))
   \<and> js_sub (ending_balance (example_account (Fin 0) (Fin 0) (fl (5 / 1000)) (Fin 0)))
          (calculated_balance (example_account (Fin 0) (Fin 0) (fl (5 / 1000)) (Fin 0)))
     = js_neg (fl (5 / 1000))
   \<and> isHarmonized (Some (example_account (Fin 0) (Fin 0) (fl (5 / 1000)) (Fin 0)))
   \<and> \<not> js_lt (Math_abs (spec_round2_half_away (js_neg (fl (5 / 1000))))) (fl (5 / 1000))
   \<and> js_sub (ending_balance (example_account (Fin 0) (Fin 0) (Fin 0) (fl (5 / 1000))))
          (calculated_balance (example_account (Fin 0) (Fin 0) (Fin 0) (fl (5 / 1000))))
     = fl (5 / 1000)
   \<and> \<not> isHarmonized (Some (example_account (Fin 0) (Fin 0) (Fin 0) (fl (5 / 1000))))
   \<and> js_lt (Math_abs (spec_round2_half_even (fl (5 / 1000)))) (fl (5 / 1000))"
proof -
  have c1: "js_sub (ending_balance (example_account (Fin 0) (Fin 0) (Fin 1) (Fin (5 / 8))))
          (calculated_balance (example_account (Fin 0) (Fin 0) (Fin 1) (Fin (5 / 8))))
     = Fin (- (3 / 8))"
    by (simp add: verdict_eval fl_eval)
  have c2: "calculateDifference (example_account (Fin 0) (Fin 0) (Fin 1) (Fin (5 / 8)))
      = fl (- (37 / 100))"
    by (simp add: verdict_eval fl_eval)
  have c3: "spec_round2_half_away (Fin (- (3 / 8))) = fl (- (38 / 100))"
    by (simp add: spec_round2_half_away_def round_half_away_def fl_eval)
  have c4: "spec_round2_half_even (Fin (- (3 / 8))) = fl (- (38 / 100))"
    by (simp add: spec_round2_half_even_def fl_eval)
  have c5: "fl (- (37 / 100)) \<noteq> fl (- (38 / 100))"
    by (simp add: fl_eval)
  have c6: "js_sub (ending_balance (example_account (Fin 0) (Fin 0) (fl (5 / 1000)) (Fin 0)))
          (calculated_balance (example_account (Fin 0) (Fin 0) (fl (5 / 1000)) (Fin 0)))
     = js_neg (fl (5 / 1000))"
    unfolding fl_0_005 by (simp add: verdict_eval fl_eval)
  have c7: "isHarmonized (Some (example_account (Fin 0) (Fin 0) (fl (5 / 1000)) (Fin 0)))"
    unfolding fl_0_005 by (simp add: verdict_eval fl_eval)
  have c8: "\<not> js_lt (Math_abs (spec_round2_half_away (js_neg (fl (5 / 1000))))) (fl (5 / 1000))"
    unfolding fl_0_005
    by (simp add: spec_round2_half_away_def round_half_away_def js_neg_def Math_abs_def fl_eval)
  have c9: "js_sub (ending_balance (example_account (Fin 0) (Fin 0) (Fin 0) (fl (5 / 1000))))
          (calculated_balance (example_account (Fin 0) (Fin 0) (Fin 0) (fl (5 / 1000))))
     = fl (5 / 1000)"
    unfolding fl_0_005 by (simp add: verdict_eval fl_eval)
  have c10: "\<not> isHarmonized (Some (example_account (Fin 0) (Fin 0) (Fin 0) (fl (5 / 1000))))"
    unfolding fl_0_005 by (simp add: verdict_eval fl_eval)
  have c11: "js_lt (Math_abs (spec_round2_half_even (fl (5 / 1000)))) (fl (5 / 1000))"
    unfolding fl_0_005 by (simp add: spec_round2_half_even_def Math_abs_def fl_eval)
  from c1 c2 c3 c4 c5 c6 c7 c8 c9 c10 c11 show ?thesis by blast
qed

text \<open>
  C1, amended. For every mapped account the calculated balance is
  \<open>starting_balance - total_debits + total_credits\<close> and the difference shown is
  \<open>Math.round(d * 100) / 100\<close> of the raw difference \<open>d = ending_balance -
  calculated_balance\<close>, in binary64 arithmetic: when the product \<open>p = d * 100\<close> is
  finite, the integer nearest to \<open>p\<close>, a tie going towards plus infinity, divided by
  100. This is the specification's \<open>round2\<close>, under rounding half away from zero and
  under banker's rounding alike, whenever \<open>p\<close> is not halfway between two integers. The
  account is reported as reconciled exactly when the absolute value of the difference
  shown is below 0.005, which is when \<open>p\<close> lies from -0.5 inclusive to 0.5 exclusive. A
  raw difference of 0.001 is reconciled; one of 0.006 is not.
\<close>

theorem reconciliation_verdict:
  "calculateDifference a = code_round2 (js_sub (ending_balance a) (calculated_balance a))
   \<and> (isHarmonized (Some a) \<longleftrightarrow> js_lt (Math_abs (calculateDifference a)) (fl (5 / 1000)))
   \<and> (js_mul (js_sub (ending_balance a) (calculated_balance a)) (Fin 100) = Fin p \<longrightarrow>
        calculateDifference a = fl (of_int \<lfloor>p + 1 / 2\<rfloor> / 100)
        \<and> of_int \<lfloor>p + 1 / 2\<rfloor> - 1 / 2 \<le> p \<and> p < of_int \<lfloor>p + 1 / 2\<rfloor> + 1 / 2
        \<and> (isHarmonized (Some a) \<longleftrightarrow> - 1 / 2 \<le> p \<and> p < 1 / 2)
        \<and> (p - of_int \<lfloor>p\<rfloor> \<noteq> 1 / 2 \<longrightarrow>
             spec_round2_half_away (js_sub (ending_balance a) (calculated_balance a))
               = calculateDifference a
             \<and> spec_round2_half_even (js_sub (ending_balance a) (calculated_balance a))
               = calculateDifference a))
   \<and> (js_sub (ending_balance a) (calculated_balance a) = fl (1 / 1000) \<longrightarrow> isHarmonized (Some a))
   \<and> (js_sub (ending_balance a) (calculated_balance a) = fl (6 / 1000) \<longrightarrow> \<not> isHarmonized (Some a))"
proof -
  let ?d = "js_sub (ending_balance a) (calculated_balance a)"
  have a1: "js_lt (Math_abs (code_round2 (fl (1 / 1000)))) (fl (5 / 1000))"
    unfolding code_round2_0_001 fl_0_005 by (simp add: Math_abs_def)
  have a6: "\<not> js_lt (Math_abs (code_round2 (fl (6 / 1000)))) (fl (5 / 1000))"
    unfolding code_round2_0_006 fl_0_005 by (simp add: Math_abs_def)
  have fin: "js_mul ?d (Fin 100) = Fin p \<longrightarrow>
        calculateDifference a = fl (of_int \<lfloor>p + 1 / 2\<rfloor> / 100)
        \<and> (isHarmonized (Some a) \<longleftrightarrow> - 1 / 2 \<le> p \<and> p < 1 / 2)
        \<and> (p - of_int \<lfloor>p\<rfloor> \<noteq> 1 / 2 \<longrightarrow>
             spec_round2_half_away ?d = calculateDifference a
             \<and> spec_round2_half_even ?d = calculateDifference a)"
    using code_round2_finite_product [of ?d p] isHarmonized_finite_product [of a p]
      spec_round2_off_tie [of ?d p]
    by (simp add: calculateDifference_code_round2)
  show ?thesis
    using a1 a6 fin floor_half_nearest [of p]
    by (auto simp: isHarmonized_iff calculateDifference_code_round2)
qed

theorem reconciliation_verdict_witness:
  "js_sub (ending_balance (example_account (Fin 0) (Fin 0) (Fin 0) (fl (1 / 1000))))
          (calculated_balance (example_account (Fin 0) (Fin 0) (Fin 0) (fl (1 / 1000))))
     = fl (1 / 1000)
   \<and> js_mul (fl (1 / 1000)) (Fin 100) = Fin (3602879701896397 / 2 ^ 55)
   \<and> calculateDifference (example_account (Fin 0) (Fin 0) (Fin 0) (fl (1 / 1000))) = Fin 0
   \<and> spec_round2_half_away (fl (1 / 1000)) = Fin 0
   \<and> spec_round2_half_even (fl (1 / 1000)) = Fin 0
   \<and> isHarmonized (Some (example_account (Fin 0) (Fin 0) (Fin 0) (fl (1 / 1000))))
   \<and> js_sub (ending_balance (example_account (Fin 0) (Fin 0) (Fin 0) (fl (6 / 1000))))
          (calculated_balance (example_account (Fin 0) (Fin 0) (Fin 0) (fl (6 / 1000))))
     = fl (6 / 1000)
   \<and> \<not> isHarmonized (Some (example_account (Fin 0) (Fin 0) (Fin 0) (fl (6 / 1000))))"
proof -
  let ?a1 = "example_account (Fin 0) (Fin 0) (Fin 0) (fl (1 / 1000))"
  let ?a6 = "example_account (Fin 0) (Fin 0) (Fin 0) (fl (6 / 1000))"
  have h1: "js_sub (ending_balance ?a1) (calculated_balance ?a1) = fl (1 / 1000)"
    unfolding fl_0_001
    by (simp add: example_account_def calculated_balance_def js_sub_def js_neg_def fl_eval)
  have h6: "js_sub (ending_balance ?a6) (calculated_balance ?a6) = fl (6 / 1000)"
    unfolding fl_0_006
    by (simp add: example_account_def calculated_balance_def js_sub_def js_neg_def fl_eval)
  have p1: "js_mul (fl (1 / 1000)) (Fin 100) = Fin (3602879701896397 / 2 ^ 55)"
    unfolding fl_0_001 by (simp add: fl_eval)
  have tie: "(3602879701896397 / 2 ^ 55 :: rat) - of_int \<lfloor>3602879701896397 / 2 ^ 55 :: rat\<rfloor> \<noteq> 1 / 2"
    by simp
  have k: "fl (of_int \<lfloor>(3602879701896397 / 2 ^ 55 :: rat) + 1 / 2\<rfloor> / 100) = Fin 0"
    by (simp add: fl_def)
  note t = reconciliation_verdict [of ?a1 "3602879701896397 / 2 ^ 55", unfolded h1]
  from t p1 have A: "calculateDifference ?a1
      = fl (of_int \<lfloor>(3602879701896397 / 2 ^ 55 :: rat) + 1 / 2\<rfloor> / 100)"
    by blast
  from t p1 tie have S: "spec_round2_half_away (fl (1 / 1000)) = calculateDifference ?a1"
      "spec_round2_half_even (fl (1 / 1000)) = calculateDifference ?a1"
    by blast+
  from t have H: "isHarmonized (Some ?a1)" by blast
  have r1: "calculateDifference ?a1 = Fin 0 \<and> spec_round2_half_away (fl (1 / 1000)) = Fin 0
      \<and> spec_round2_half_even (fl (1 / 1000)) = Fin 0 \<and> isHarmonized (Some ?a1)"
    using A S H unfolding k by simp
  from reconciliation_verdict [of ?a6 0, unfolded h6]
  have r6: "\<not> isHarmonized (Some ?a6)" by blast
  from h1 h6 p1 r1 r6 show ?thesis by blast
qed

section \<open>The value normalizers\<close>

lemma safeParseFloat_not_NaN: "safeParseFloat v \<noteq> NaN"
  by (cases v) (auto simp: safeParseFloat_def isNaN_def Let_def)

lemma safeParseInt_not_NaN: "safeParseInt v \<noteq> NaN"
  by (cases v) (auto simp: safeParseInt_def isNaN_def Let_def Math_floor_def split: jsnum.splits)

lemma Math_abs_not_NaN: "x \<noteq> NaN \<Longrightarrow> Math_abs x \<noteq> NaN"
  by (cases x) (simp_all add: Math_abs_def)

lemma Math_abs_nonneg: "x \<noteq> NaN \<Longrightarrow> js_le (Fin 0) (Math_abs x)"
  by (cases x) (auto simp: Math_abs_def js_le_def)

lemma mapAccountData_no_NaN: "no_NaN_fields (mapAccountData a)"
  by (simp add: no_NaN_fields_def mapAccountData_def safeParseFloat_not_NaN
      safeParseInt_not_NaN Math_abs_not_NaN)

text \<open>
  C2, as the claim states it, fails: the number \<open>Infinity\<close> goes through both normalizers
  unchanged, and the string \<open>"Infinity"\<close> is parsed to it, so the result is not always
  a finite number.
\<close>

theorem normalizers_finite_counterexample:
  "\<not> is_finite (safeParseFloat (JNum PosInf)) \<and> \<not> is_finite (safeParseInt (JNum PosInf))
   \<and> \<not> is_finite (safeParseFloat (JStr ''Infinity''))"
  by (simp add: str_eval Let_def is_finite_def Math_floor_def)

text \<open>
  C2, amended. The normalizers are total and never return NaN, so no NaN appears in a
  normalized field. The result is a finite number for null, undefined, NaN, every finite
  number and the strings \<open>"NA"\<close>, \<open>"1,234.50"\<close> and \<open>""\<close>; an infinite number is
  returned as it is.
\<close>

theorem normalizers_never_NaN:
  "safeParseFloat v \<noteq> NaN \<and> safeParseInt v \<noteq> NaN
   \<and> no_NaN_fields (mapAccountData a)
   \<and> safeParseFloat (JNum (Fin x)) = Fin x \<and> safeParseInt (JNum (Fin x)) = Fin (of_int \<lfloor>x\<rfloor>)
   \<and> safeParseFloat (JNum NaN) = Fin 0 \<and> safeParseInt (JNum NaN) = Fin 0
   \<and> safeParseFloat JNull = Fin 0 \<and> safeParseInt JNull = Fin 0
   \<and> safeParseFloat JUndefined = Fin 0 \<and> safeParseInt JUndefined = Fin 0
   \<and> safeParseFloat (JStr ''NA'') = Fin 0 \<and> safeParseInt (JStr ''NA'') = Fin 0
   \<and> safeParseFloat (JStr ''1,234.50'') = Fin (2469 / 2)
   \<and> safeParseInt (JStr ''1,234.50'') = Fin 1234
   \<and> safeParseFloat (JStr []) = Fin 0 \<and> safeParseInt (JStr []) = Fin 0
   \<and> safeParseFloat (JNum PosInf) = PosInf \<and> safeParseFloat (JNum NegInf) = NegInf
   \<and> safeParseInt (JNum PosInf) = PosInf \<and> safeParseInt (JNum NegInf) = NegInf
   \<and> safeParseFloat (JStr ''Infinity'') = PosInf"
proof -
  have inf: "safeParseFloat (JStr ''Infinity'') = PosInf"
    by (simp add: str_eval Let_def)
  have num: "safeParseFloat (JNum (Fin x)) = Fin x \<and> safeParseInt (JNum (Fin x)) = Fin (of_int \<lfloor>x\<rfloor>)
      \<and> safeParseFloat (JNum NaN) = Fin 0 \<and> safeParseInt (JNum NaN) = Fin 0
      \<and> safeParseFloat JNull = Fin 0 \<and> safeParseInt JNull = Fin 0
      \<and> safeParseFloat JUndefined = Fin 0 \<and> safeParseInt JUndefined = Fin 0
      \<and> safeParseFloat (JNum PosInf) = PosInf \<and> safeParseFloat (JNum NegInf) = NegInf
      \<and> safeParseInt (JNum PosInf) = PosInf \<and> safeParseInt (JNum NegInf) = NegInf"
    by (simp add: safeParseFloat_def safeParseInt_def isNaN_def Math_floor_def)
  have na: "safeParseFloat (JStr ''NA'') = Fin 0 \<and> safeParseInt (JStr ''NA'') = Fin 0"
    by (simp add: str_eval Let_def)
  have dec: "safeParseFloat (JStr ''1,234.50'') = Fin (2469 / 2)"
    by (simp add: str_eval fl_eval)
  have int: "safeParseInt (JStr ''1,234.50'') = Fin 1234"
    by (simp add: str_eval fl_eval)
  have emp: "safeParseFloat (JStr []) = Fin 0 \<and> safeParseInt (JStr []) = Fin 0"
    by (simp add: str_eval Let_def)
  show ?thesis
    using inf num na dec int emp safeParseFloat_not_NaN [of v] safeParseInt_not_NaN [of v]
      mapAccountData_no_NaN [of a]
    by blast
qed

text \<open>
  C8. \<open>toDecimal("1,234.56")\<close> is the number 1234.56, \<open>toInteger("1,234.56")\<close> is 1234,
  \<open>toDecimal("NA")\<close> is 0 and \<open>toDecimal(null)\<close> is 0.
\<close>

theorem normalizer_examples:
  "safeParseFloat (JStr ''1,234.56'') = fl (123456 / 100)
   \<and> fl (123456 / 100) = Fin (2714826150374277 / 2 ^ 41)
   \<and> safeParseInt (JStr ''1,234.56'') = Fin 1234
   \<and> safeParseFloat (JStr ''NA'') = Fin 0
   \<and> safeParseFloat JNull = Fin 0"
proof -
  have "safeParseFloat (JStr ''1,234.56'') = fl (123456 / 100)"
    by (simp add: str_eval Let_def)
  moreover have "fl (123456 / 100) = Fin (2714826150374277 / 2 ^ 41)"
    by (simp add: fl_eval)
  moreover have "safeParseInt (JStr ''1,234.56'') = Fin 1234"
    by (simp add: str_eval fl_eval)
  moreover have "safeParseFloat (JStr ''NA'') = Fin 0"
    by (simp add: str_eval Let_def)
  moreover have "safeParseFloat JNull = Fin 0"
    by (simp add: safeParseFloat_def)
  ultimately show ?thesis by blast
qed

section \<open>Debit sign\<close>

lemma fl_152330_52: "fl (15233052 / 100) = Fin (5234036812661391 / 2 ^ 35)"
  by (simp add: fl_eval)

text \<open>
  C5. For every raw account, the normalized \<open>total_debits\<close> is the absolute value of the
  decimal-normalized raw \<open>total_withdrawals\<close>, hence at least 0 whatever the sign
  upstream; raw withdrawals of -152330.52 and of 152330.52 both give 152330.52.
\<close>

theorem debit_sign_normalization:
  "total_debits (mapAccountData a) = Math_abs (safeParseFloat (total_withdrawals a))
   \<and> js_le (Fin 0) (total_debits (mapAccountData a))
   \<and> total_debits (mapAccountData (a\<lparr>total_withdrawals := JNum (fl (- 15233052 / 100))\<rparr>))
       = fl (15233052 / 100)
   \<and> total_debits (mapAccountData (a\<lparr>total_withdrawals := JNum (fl (15233052 / 100))\<rparr>))
       = fl (15233052 / 100)
   \<and> fl (15233052 / 100) = Fin (5234036812661391 / 2 ^ 35)"
proof -
  have neg: "fl (- 15233052 / 100) = Fin (- (5234036812661391 / 2 ^ 35))"
    using fl_minus [of "15233052 / 100"] unfolding fl_152330_52 by (simp add: js_neg_def)
  have d: "\<And>b. total_debits (mapAccountData b) = Math_abs (safeParseFloat (total_withdrawals b))"
    by (simp add: mapAccountData_def)
  have "js_le (Fin 0) (total_debits (mapAccountData a))"
    unfolding d by (rule Math_abs_nonneg) (rule safeParseFloat_not_NaN)
  moreover have "total_debits (mapAccountData (a\<lparr>total_withdrawals := JNum (fl (- 15233052 / 100))\<rparr>))
       = fl (15233052 / 100)"
    unfolding d neg fl_152330_52 by (simp add: safeParseFloat_def isNaN_def Math_abs_def)
  moreover have "total_debits (mapAccountData (a\<lparr>total_withdrawals := JNum (fl (15233052 / 100))\<rparr>))
       = fl (15233052 / 100)"
    unfolding d fl_152330_52 by (simp add: safeParseFloat_def isNaN_def Math_abs_def)
  ultimately show ?thesis using d [of a] fl_152330_52 by blast
qed

section \<open>Decimal strings\<close>

lemma digit_char_val: "d < 10 \<Longrightarrow> digit_val (''0123456789'' ! d) = d"
proof -
  assume "d < 10"
  then have "d \<in> {0, 1, 2, 3, 4, 5, 6, 7, 8, 9}" by auto
  then show ?thesis by (auto simp: digit_val_def)
qed

lemma digits_val_snoc: "digits_val (ds @ [c]) = 10 * digits_val ds + digit_val c"
  by (simp add: digits_val_def)

lemma digits_val_nat_digits: "digits_val (nat_digits n) = n"
proof (induction n rule: nat_digits.induct)
  case (1 n)
  show ?case
  proof (cases "n < 10")
    case True
    then show ?thesis
      by (subst nat_digits.simps) (simp add: digits_val_def digit_char_val)
  next
    case False
    with 1 have ih: "digits_val (nat_digits (n div 10)) = n div 10" by simp
    show ?thesis
      using False by (subst nat_digits.simps) (simp add: digits_val_snoc ih digit_char_val)
  qed
qed

lemma nat_digits_inj: "nat_digits m = nat_digits n \<Longrightarrow> m = n"
  by (metis digits_val_nat_digits)

lemma nat_digits_numeral [simp]:
  "nat_digits (numeral k) =
     (if (numeral k :: nat) < 10 then [''0123456789'' ! numeral k]
      else nat_digits (numeral k div 10) @ [''0123456789'' ! (numeral k mod 10)])"
  by (subst nat_digits.simps) simp

lemma nat_digits_0 [simp]: "nat_digits 0 = ''0''"
  by (subst nat_digits.simps) simp

lemma nat_digits_1 [simp]: "nat_digits 1 = ''1''"
  by (subst nat_digits.simps) simp

lemma nat_digits_Suc_0 [simp]: "nat_digits (Suc 0) = ''1''"
  by (subst nat_digits.simps) simp


lemma nat_digits_key:
  assumes "map_of monthMap (nat_digits n) = Some a"
  shows "1 \<le> n \<and> n \<le> 12"
proof -
  from assms have "(nat_digits n, a) \<in> set monthMap" by (rule map_of_SomeD)
  then have "nat_digits n \<in> fst ` set monthMap" by force
  then have "digits_val (nat_digits n) \<in> digits_val ` fst ` set monthMap" by (rule imageI)
  then show ?thesis
    unfolding digits_val_nat_digits by (auto simp: monthMap_def digits_val_def digit_val_def)
qed

lemma nat_digits_nonempty: "nat_digits n \<noteq> []"
  by (subst nat_digits.simps) simp

lemma nat_digits_no_leading_zero: "0 < n \<Longrightarrow> hd (nat_digits n) \<noteq> CHR ''0''"
proof (induction n rule: nat_digits.induct)
  case (1 n)
  show ?case
  proof (cases "n < 10")
    case True
    with 1(2) have "n \<in> {1, 2, 3, 4, 5, 6, 7, 8, 9}" by auto
    then show ?thesis by (subst nat_digits.simps) auto
  next
    case False
    then have "0 < n div 10" by simp
    with 1(1) False have "hd (nat_digits (n div 10)) \<noteq> CHR ''0''" by simp
    then show ?thesis
      using False nat_digits_nonempty [of "n div 10"]
      by (subst nat_digits.simps) simp
  qed
qed

lemma Number_toString_int:
  assumes "\<bar>n\<bar> \<le> 2 ^ 53"
  shows "Number_toString h (Fin (of_int n)) =
           (if n < 0 then CHR ''-'' # nat_digits (nat (- n)) else nat_digits (nat n))"
proof -
  have "\<bar>of_int n :: rat\<bar> \<le> 2 ^ 53"
    using assms by (metis of_int_abs of_int_le_iff of_int_numeral of_int_power)
  then have "is_safe_integer (of_int n)" by (simp add: is_safe_integer_def)
  then show ?thesis by (simp add: Number_toString_def)
qed

lemma Number_toString_nat:
  "n \<le> 2 ^ 53 \<Longrightarrow> Number_toString h (Fin (of_nat n)) = nat_digits n"
  using Number_toString_int [of "int n" h] by simp

lemma Number_toString_numeral [simp]:
  "(numeral k :: int) \<le> 2 ^ 53 \<Longrightarrow> Number_toString h (Fin (numeral k)) = nat_digits (numeral k)"
  using Number_toString_int [of "numeral k" h] by simp

lemma Number_toString_neg_numeral [simp]:
  "(numeral k :: int) \<le> 2 ^ 53 \<Longrightarrow>
     Number_toString h (Fin (- numeral k)) = CHR ''-'' # nat_digits (numeral k)"
  using Number_toString_int [of "- numeral k" h] by simp

lemma Number_toString_0 [simp]: "Number_toString h (Fin 0) = ''0''"
  using Number_toString_int [of 0 h] by simp

lemma Number_toString_1 [simp]: "Number_toString h (Fin 1) = ''1''"
  using Number_toString_int [of 1 h] by simp

lemma month_in_range:
  assumes "1 \<le> m" and "m \<le> 12"
  shows "getMonthAbbreviation h (Fin (of_int m)) =
           [''JAN'', ''FEB'', ''MAR'', ''APR'', ''MAY'', ''JUN'',
            ''JUL'', ''AUG'', ''SEP'', ''OCT'', ''NOV'', ''DEC''] ! nat (m - 1)"
proof -
  from assms have "m = 1 \<or> m = 2 \<or> m = 3 \<or> m = 4 \<or> m = 5 \<or> m = 6 \<or> m = 7
      \<or> m = 8 \<or> m = 9 \<or> m = 10 \<or> m = 11 \<or> m = 12"
    by presburger
  then show ?thesis
    by (auto simp: getMonthAbbreviation_def monthMap_def)
qed

lemma month_out_of_range:
  assumes "n < 1 \<or> 12 < n" and "\<bar>n\<bar> \<le> 2 ^ 53"
  shows "getMonthAbbreviation h (Fin (of_int n)) =
           (if n < 0 then CHR ''-'' # nat_digits (nat (- n)) else nat_digits (nat n))"
proof (cases "n < 0")
  case True
  then show ?thesis
    by (simp add: getMonthAbbreviation_def Number_toString_int [OF assms(2)] monthMap_def)
next
  case False
  have "map_of monthMap (nat_digits (nat n)) = None"
  proof (cases "map_of monthMap (nat_digits (nat n))")
    case (Some a)
    from nat_digits_key [OF Some] assms(1) False show ?thesis by auto
  qed simp
  then show ?thesis
    using False by (simp add: getMonthAbbreviation_def Number_toString_int [OF assms(2)])
qed

text \<open>
  C9. The month mapping sends 1 to 12 to JAN to DEC, so 8 gives \<open>"AUG"\<close>; a value
  outside 1 to 12 comes back as its own string form, so 13 gives \<open>"13"\<close>, and nothing
  is raised. For a number that is not an integer of magnitude at most \<open>2^53\<close> the
  string form is the host's.
\<close>

theorem month_abbreviation:
  "getMonthAbbreviation h (Fin 1) = ''JAN'' \<and> getMonthAbbreviation h (Fin 2) = ''FEB''
   \<and> getMonthAbbreviation h (Fin 3) = ''MAR'' \<and> getMonthAbbreviation h (Fin 4) = ''APR''
   \<and> getMonthAbbreviation h (Fin 5) = ''MAY'' \<and> getMonthAbbreviation h (Fin 6) = ''JUN''
   \<and> getMonthAbbreviation h (Fin 7) = ''JUL'' \<and> getMonthAbbreviation h (Fin 8) = ''AUG''
   \<and> getMonthAbbreviation h (Fin 9) = ''SEP'' \<and> getMonthAbbreviation h (Fin 10) = ''OCT''
   \<and> getMonthAbbreviation h (Fin 11) = ''NOV'' \<and> getMonthAbbreviation h (Fin 12) = ''DEC''
   \<and> getMonthAbbreviation h (Fin 13) = ''13''
   \<and> ((n < 1 \<or> 12 < n) \<and> \<bar>n\<bar> \<le> 2 ^ 53 \<longrightarrow>
        getMonthAbbreviation h (Fin (of_int n)) =
          (if n < 0 then CHR ''-'' # nat_digits (nat (- n)) else nat_digits (nat n)))
   \<and> getMonthAbbreviation h NaN = ''NaN''
   \<and> getMonthAbbreviation h PosInf = ''Infinity''
   \<and> getMonthAbbreviation h NegInf = ''-Infinity''
   \<and> (\<not> is_safe_integer r \<and> map_of monthMap (number_text h r) = None \<longrightarrow>
        getMonthAbbreviation h (Fin r) = number_text h r)"
proof -
  have tab: "\<And>m. 1 \<le> m \<Longrightarrow> m \<le> 12 \<Longrightarrow> getMonthAbbreviation h (Fin (of_int m)) =
           [''JAN'', ''FEB'', ''MAR'', ''APR'', ''MAY'', ''JUN'',
            ''JUL'', ''AUG'', ''SEP'', ''OCT'', ''NOV'', ''DEC''] ! nat (m - 1)"
    by (rule month_in_range)
  have t13: "getMonthAbbreviation h (Fin 13) = ''13''"
    using month_out_of_range [of 13 h] by simp
  have special: "getMonthAbbreviation h NaN = ''NaN'' \<and> getMonthAbbreviation h PosInf = ''Infinity''
      \<and> getMonthAbbreviation h NegInf = ''-Infinity''"
    by (simp add: getMonthAbbreviation_def Number_toString_def monthMap_def)
  have other: "\<not> is_safe_integer r \<and> map_of monthMap (number_text h r) = None \<longrightarrow>
        getMonthAbbreviation h (Fin r) = number_text h r"
    by (simp add: getMonthAbbreviation_def Number_toString_def)
  show ?thesis
    using tab [of 1] tab [of 2] tab [of 3] tab [of 4] tab [of 5] tab [of 6] tab [of 7]
      tab [of 8] tab [of 9] tab [of 10] tab [of 11] tab [of 12] t13 special other
      month_out_of_range [of n h]
    by simp
qed

theorem month_abbreviation_witness:
  "getMonthAbbreviation (example_host 0) (Fin (of_int 13)) = ''13''
   \<and> getMonthAbbreviation (example_host 0) (Fin (of_int (- 3))) = ''-3''
   \<and> getMonthAbbreviation (example_host 0) (Fin (of_int 0)) = ''0''
   \<and> \<not> is_safe_integer (1 / 2)
   \<and> map_of monthMap (number_text (example_host 0) (1 / 2)) = None
   \<and> getMonthAbbreviation (example_host 0) (Fin (1 / 2)) = ''0.5''"
proof -
  have h: "\<not> is_safe_integer (1 / 2)
      \<and> map_of monthMap (number_text (example_host 0) (1 / 2)) = None"
    by (simp add: is_safe_integer_def example_host_def monthMap_def)
  have t: "number_text (example_host 0) (1 / 2) = ''0.5''"
    by (simp add: example_host_def)
  show ?thesis
    using h t
      month_abbreviation [of "example_host 0" 13 "1 / 2"]
      month_abbreviation [of "example_host 0" "- 3" "1 / 2"]
      month_abbreviation [of "example_host 0" 0 "1 / 2"]
    by simp
qed

section \<open>Calendar\<close>

lemma InLeapYear_leap: "InLeapYear y = (if is_leap_year y then 1 else 0)"
  by (auto simp: InLeapYear_def DaysInYear_def is_leap_year_def)

lemma DaysInYear_leap: "DaysInYear y = (if is_leap_year y then 366 else 365)"
  by (auto simp: DaysInYear_def is_leap_year_def)

lemma DayFromYear_bounds:
  assumes "1000 \<le> y" and "y \<le> 10000"
  shows "- 400000 \<le> DayFromYear y \<and> DayFromYear y \<le> 3000000"
proof -
  define A where "A = (y - 1969) div 4"
  define B where "B = (y - 1901) div 100"
  define C where "C = (y - 1601) div 400"
  have lo: "(1000 - k) div j \<le> (y - k) div j" if "0 < j" for k j :: int
    using assms that by (intro zdiv_mono1) simp_all
  have hi: "(y - k) div j \<le> (10000 - k) div j" if "0 < j" for k j :: int
    using assms that by (intro zdiv_mono1) simp_all
  have a: "- 243 \<le> A \<and> A \<le> 2008"
    using lo [of 4 1969] hi [of 4 1969] by (simp add: A_def)
  have b: "- 10 \<le> B \<and> B \<le> 81"
    using lo [of 100 1901] hi [of 100 1901] by (simp add: B_def)
  have c: "- 2 \<le> C \<and> C \<le> 21"
    using lo [of 400 1601] hi [of 400 1601] by (simp add: C_def)
  have "DayFromYear y = 365 * (y - 1970) + A - B + C"
    by (simp add: DayFromYear_def A_def B_def C_def)
  then show ?thesis using a b c assms by auto
qed

lemma to_integer_of_int [simp]: "to_integer (of_int n) = n"
  by (simp add: to_integer_def)

lemma month_cases:
  "1 \<le> m \<Longrightarrow> m \<le> 12 \<Longrightarrow>
     m = 1 \<or> m = 2 \<or> m = 3 \<or> m = 4 \<or> m = 5 \<or> m = 6 \<or> m = 7
      \<or> m = 8 \<or> m = 9 \<or> m = 10 \<or> m = 11 \<or> (m = (12::int))"
  by presburger

lemma day0_index_range:
  assumes "1 \<le> m" and "m \<le> 12" and "leap = 0 \<or> leap = 1"
  shows "0 \<le> day0_index m leap \<and> day0_index m leap \<le> 366"
  using month_cases [OF assms(1,2)] assms(3)
  by (elim disjE) (simp_all add: day0_index_def month_start_def)

lemma DateFromDay_day0_index:
  assumes "1 \<le> m" and "m \<le> 12" and "leap = 0 \<or> leap = 1"
  shows "DateFromDay (day0_index m leap) leap =
           (if m = 2 then 28 + leap else if m = 4 \<or> m = 6 \<or> m = 9 \<or> m = 11 then 30 else 31)"
  using month_cases [OF assms(1,2)] assms(3)
  by (elim disjE)
    (simp_all add: day0_index_def month_start_def DateFromDay_def MonthFromDay_def)

lemma days_in_month_leap:
  "days_in_month y m =
     (if m = 2 then 28 + InLeapYear y else if m = 4 \<or> m = 6 \<or> m = 9 \<or> m = 11 then 30 else 31)"
  by (simp add: days_in_month_def InLeapYear_leap)

text \<open>Day 0 of the month after month \<open>m\<close> is the last day of month \<open>m\<close>, in the same year.\<close>

lemma day0_of_next_month:
  assumes "1 \<le> m" and "m \<le> 12"
  shows "prev_day (y + m div 12, month_start (m mod 12) (InLeapYear (y + m div 12)))
           = (y, day0_index m (InLeapYear y))"
proof (cases "m = 12")
  case True
  then show ?thesis
    by (simp add: prev_day_def month_start_def day0_index_def InLeapYear_leap DaysInYear_leap)
next
  case False
  with assms have m: "m mod 12 = m" "m div 12 = 0" by simp_all
  have "0 < month_start m (InLeapYear y)"
    using month_cases [OF assms] False
    by (elim disjE) (simp_all add: month_start_def InLeapYear_def)
  then show ?thesis using False by (simp add: m prev_day_def day0_index_def)
qed

lemma shift_days_0 [simp]: "shift_days 0 p = p"
  by (simp add: shift_days_def)

lemma shift_days_1 [simp]: "shift_days 1 p = next_day p"
  by (simp add: shift_days_def)

lemma Date_day0_getDate_unfold:
  assumes "1 \<le> m" and "m \<le> 12" and "100 \<le> y"
  shows "Date_day0_getDate h (Fin (of_int y)) (Fin (of_int m)) =
     (let t = last_day_number y m * msPerDay;
          tv = t - zone_offset_of_local h t
      in if \<bar>tv\<bar> \<le> 8640000000000000 then
           (let shown = shift_days ((tv + zone_offset_of_utc h tv - t) div msPerDay)
                          (y, day0_index m (InLeapYear y))
            in Fin (of_int (DateFromDay (snd shown) (InLeapYear (fst shown)))))
         else NaN)"
  using assms(3)
  by (simp add: Date_day0_getDate_def Let_def day0_of_next_month [OF assms(1,2)]
      last_day_number_def)

lemma Date_day0_getDate_month:
  assumes "1 \<le> m" and "m \<le> 12" and "1000 \<le> y" and "y \<le> 9999"
    and "zone_keeps_day h (last_day_number y m)"
  shows "Date_day0_getDate h (Fin (of_int y)) (Fin (of_int m)) = Fin (of_int (days_in_month y m))"
proof -
  have L01: "InLeapYear y = 0 \<or> InLeapYear y = 1" by (simp add: InLeapYear_def)
  have date: "DateFromDay (day0_index m (InLeapYear y)) (InLeapYear y) = days_in_month y m"
    unfolding days_in_month_leap using assms(1,2) L01 by (rule DateFromDay_day0_index)
  have y100: "100 \<le> y" using assms(3) by simp
  show ?thesis
    using assms(5)
    by (simp add: Date_day0_getDate_unfold [OF assms(1,2) y100] zone_keeps_day_def Let_def date)
qed

text \<open>In UTC every day within the range of time values is kept.\<close>

lemma utc_keeps_day:
  assumes "zone_offset_of_local h = (\<lambda>t. 0)" and "zone_offset_of_utc h = (\<lambda>tv. 0)"
    and "\<bar>day\<bar> \<le> 100000000"
  shows "zone_keeps_day h day"
  using assms(3) by (simp add: zone_keeps_day_def assms(1,2) msPerDay_def abs_le_iff)

lemma last_day_number_range:
  assumes "1 \<le> m" and "m \<le> 12" and "1000 \<le> y" and "y \<le> 9999"
  shows "\<bar>last_day_number y m\<bar> \<le> 100000000"
proof -
  have "InLeapYear y = 0 \<or> InLeapYear y = 1" by (simp add: InLeapYear_def)
  from day0_index_range [OF assms(1,2) this] DayFromYear_bounds [of y] assms(3,4)
  show ?thesis by (auto simp: last_day_number_def abs_le_iff)
qed

text \<open>
  In the zone of Kiritimati day 0 of the month after December 1994 is read back as the
  first of January 1995.
\<close>

lemma kiritimati_december_1994:
  "Date_day0_getDate (kiritimati_host now) (Fin 1994) (Fin 12) = Fin 1
   \<and> \<not> zone_keeps_day (kiritimati_host now) (last_day_number 1994 12)
   \<and> days_in_month 1994 12 = 31"
proof -
  have n: "last_day_number 1994 12 = 9130"
    by (simp add: last_day_number_def DayFromYear_def day0_index_def InLeapYear_def DaysInYear_def)
  have "Date_day0_getDate (kiritimati_host now) (Fin 1994) (Fin 12) = Fin 1"
    unfolding Date_day0_getDate_unfold [of 12 1994, simplified] n
    by (simp add: kiritimati_host_def msPerDay_def Let_def day0_index_def InLeapYear_def
        DaysInYear_def next_day_def DateFromDay_def MonthFromDay_def)
  moreover have "\<not> zone_keeps_day (kiritimati_host now) (last_day_number 1994 12)"
    unfolding n by (simp add: zone_keeps_day_def kiritimati_host_def msPerDay_def Let_def)
  moreover have "days_in_month 1994 12 = 31" by (simp add: days_in_month_def)
  ultimately show ?thesis by simp
qed

section \<open>The mapper\<close>

lemma map_entries_Some: "map_entries (map Some accs) = Inr (map mapAccountData accs)"
  by (induction accs) simp_all

lemma map_entries_no_null:
  "None \<notin> set entries \<Longrightarrow> \<exists>accs. entries = map Some accs"
proof (induction entries)
  case Nil
  show ?case by simp
next
  case (Cons e rest)
  then obtain accs where rest: "rest = map Some accs" by auto
  from Cons.prems obtain a where "e = Some a" by (cases e) auto
  then have "e # rest = map Some (a # accs)" using rest by simp
  then show ?case by (rule exI)
qed

lemma map_entries_null: "None \<in> set entries \<Longrightarrow> map_entries entries = Inl TypeError"
proof (induction entries)
  case Nil
  then show ?case by simp
next
  case (Cons e rest)
  show ?case
  proof (cases e)
    case None
    then show ?thesis by simp
  next
    case (Some a)
    with Cons show ?thesis by simp
  qed
qed

lemma map_entries_fails_iff: "map_entries entries = Inl e \<longleftrightarrow> e = TypeError \<and> None \<in> set entries"
proof (cases "None \<in> set entries")
  case True
  then show ?thesis using map_entries_null [OF True] by auto
next
  case False
  from map_entries_no_null [OF False] obtain accs where "entries = map Some accs" by blast
  then show ?thesis using False by (simp add: map_entries_Some)
qed

lemma map_accounts_fails_iff:
  "map_accounts accs = Inl e \<longleftrightarrow>
     e = TypeError \<and> (accs = AccountsOther True \<or> (\<exists>entries. accs = AccountsArray entries \<and> None \<in> set entries))"
  by (cases accs) (auto simp: map_accounts_def map_entries_fails_iff)

lemma mapper_Some:
  assumes "parsed_json d = Some pj" and "map_accounts (raw_accounts pj) = Inr mapped"
  shows "\<exists>row. mapADLSToReconciliationRow h (Some d) = Inr row
     \<and> first_transaction_date row =
          Number_toString h (period_month pj) @ ''/1/'' @ Number_toString h (period_year pj)
     \<and> last_transaction_date row =
          Number_toString h (period_month pj) @ ''/''
            @ Number_toString h (Date_day0_getDate h (period_year pj) (period_month pj))
            @ ''/'' @ Number_toString h (period_year pj)
     \<and> accounts row = mapped
     \<and> case_id row = (case batch_id d of None \<Rightarrow> fallback_case_id h
                        | Some b \<Rightarrow> if b \<noteq> [] then b else fallback_case_id h)"
  using assms by (simp add: mapADLSToReconciliationRow_def Let_def)

lemma mapper_error:
  assumes "parsed_json d = Some pj"
  shows "mapADLSToReconciliationRow h (Some d) = Inl e \<longleftrightarrow> map_accounts (raw_accounts pj) = Inl e"
  using assms by (simp add: mapADLSToReconciliationRow_def Let_def split: sum.splits)

lemma map_accounts_not_missing: "map_accounts accs \<noteq> Inl MissingParsedJson"
  by (simp add: map_accounts_fails_iff)

lemma mapper_missing_iff:
  "mapADLSToReconciliationRow h x = Inl MissingParsedJson \<longleftrightarrow>
     (case x of None \<Rightarrow> True | Some d \<Rightarrow> parsed_json d = None)"
proof (cases x)
  case None
  then show ?thesis by (simp add: mapADLSToReconciliationRow_def)
next
  case (Some d)
  show ?thesis
  proof (cases "parsed_json d")
    case None
    then show ?thesis using Some by (simp add: mapADLSToReconciliationRow_def)
  next
    case (Some pj)
    then show ?thesis
      using \<open>x = Some d\<close> mapper_error [OF Some, of h MissingParsedJson]
      by (simp add: map_accounts_not_missing)
  qed
qed

lemma mapper_type_error_iff:
  "mapADLSToReconciliationRow h (Some d) = Inl TypeError \<longleftrightarrow>
     (\<exists>pj. parsed_json d = Some pj
        \<and> (raw_accounts pj = AccountsOther True
             \<or> (\<exists>entries. raw_accounts pj = AccountsArray entries \<and> None \<in> set entries)))"
proof (cases "parsed_json d")
  case None
  then show ?thesis by (simp add: mapADLSToReconciliationRow_def)
next
  case (Some pj)
  then show ?thesis
    using mapper_error [OF Some, of h TypeError] by (simp add: map_accounts_fails_iff)
qed

lemma mapper_fails_iff:
  "(\<exists>e. mapADLSToReconciliationRow h x = Inl e) \<longleftrightarrow>
     (case x of
        None \<Rightarrow> True
      | Some d \<Rightarrow>
          (case parsed_json d of
             None \<Rightarrow> True
           | Some pj \<Rightarrow> (\<exists>e. map_accounts (raw_accounts pj) = Inl e)))"
proof (cases x)
  case None
  then show ?thesis by (simp add: mapADLSToReconciliationRow_def)
next
  case (Some d)
  show ?thesis
  proof (cases "parsed_json d")
    case None
    then show ?thesis using \<open>x = Some d\<close> by (simp add: mapADLSToReconciliationRow_def)
  next
    case (Some pj)
    then show ?thesis using \<open>x = Some d\<close> mapper_error [OF Some, of h] by simp
  qed
qed

lemma mapper_account_objects:
  assumes "parsed_json d = Some pj" and "raw_accounts pj = AccountsArray (map Some accs)"
  shows "\<exists>row. mapADLSToReconciliationRow h (Some d) = Inr row
           \<and> accounts row = map mapAccountData accs"
proof -
  have "map_accounts (raw_accounts pj) = Inr (map mapAccountData accs)"
    by (simp add: assms(2) map_accounts_def map_entries_Some)
  from mapper_Some [OF assms(1) this, of h] show ?thesis by blast
qed

lemma mapper_case_id:
  assumes "mapADLSToReconciliationRow h (Some d) = Inr row"
  shows "case_id row = (case batch_id d of None \<Rightarrow> fallback_case_id h
                        | Some b \<Rightarrow> if b \<noteq> [] then b else fallback_case_id h)"
proof -
  from assms obtain pj where pj: "parsed_json d = Some pj"
    by (cases "parsed_json d") (simp_all add: mapADLSToReconciliationRow_def)
  from assms obtain mapped where "map_accounts (raw_accounts pj) = Inr mapped"
    using mapper_error [OF pj, of h] by (cases "map_accounts (raw_accounts pj)") auto
  from mapper_Some [OF pj this, of h] assms show ?thesis by auto
qed

lemma days_in_month_range: "28 \<le> days_in_month y m \<and> days_in_month y m \<le> 31"
  by (simp add: days_in_month_def)

lemma Number_toString_pos:
  "0 \<le> n \<Longrightarrow> n \<le> 2 ^ 53 \<Longrightarrow> Number_toString h (Fin (of_int n)) = nat_digits (nat n)"
  using Number_toString_int [of n h] by simp

lemma period_month_default:
  "statement_month pj = None \<or> statement_month pj = Some NaN
     \<or> (\<exists>r. statement_month pj = Some (Fin r) \<and> \<lfloor>r\<rfloor> = 0) \<Longrightarrow> period_month pj = Fin 1"
  by (auto simp: period_month_def num_or_def num_truthy_def opt_num_val_def safeParseInt_def
      isNaN_def Math_floor_def)

lemma period_year_default:
  "statement_year pj = None \<or> statement_year pj = Some NaN
     \<or> (\<exists>r. statement_year pj = Some (Fin r) \<and> \<lfloor>r\<rfloor> = 0) \<Longrightarrow> period_year pj = Fin 2025"
  by (auto simp: period_year_def num_or_def num_truthy_def opt_num_val_def safeParseInt_def
      isNaN_def Math_floor_def)

lemma period_month_int:
  "statement_month pj = Some (Fin (of_int k)) \<Longrightarrow> k \<noteq> 0 \<Longrightarrow> period_month pj = Fin (of_int k)"
  by (simp add: period_month_def num_or_def num_truthy_def opt_num_val_def safeParseInt_def
      isNaN_def Math_floor_def)

lemma period_year_int:
  "statement_year pj = Some (Fin (of_int k)) \<Longrightarrow> k \<noteq> 0 \<Longrightarrow> period_year pj = Fin (of_int k)"
  by (simp add: period_year_def num_or_def num_truthy_def opt_num_val_def safeParseInt_def
      isNaN_def Math_floor_def)

text \<open>
  Where the zone keeps the last day of the month, the dates of a statement with a month
  from 1 to 12 and a year of four digits are the first and the last day of that month,
  written without leading zeros.
\<close>

lemma dates_of_valid_period:
  assumes "parsed_json d = Some pj" and "map_accounts (raw_accounts pj) = Inr mapped"
    and "period_month pj = Fin (of_int m)" and "1 \<le> m" and "m \<le> 12"
    and "period_year pj = Fin (of_int y)" and "1000 \<le> y" and "y \<le> 9999"
    and "zone_keeps_day h (last_day_number y m)"
  shows "\<exists>row. mapADLSToReconciliationRow h (Some d) = Inr row
     \<and> first_transaction_date row = nat_digits (nat m) @ ''/1/'' @ nat_digits (nat y)
     \<and> last_transaction_date row =
          nat_digits (nat m) @ ''/'' @ nat_digits (nat (days_in_month y m)) @ ''/'' @ nat_digits (nat y)"
proof -
  have sm: "Number_toString h (Fin (of_int m)) = nat_digits (nat m)"
    using assms(4,5) by (intro Number_toString_pos) simp_all
  have sy: "Number_toString h (Fin (of_int y)) = nat_digits (nat y)"
    using assms(7,8) by (intro Number_toString_pos) simp_all
  have sd: "Number_toString h (Fin (of_int (days_in_month y m))) = nat_digits (nat (days_in_month y m))"
    using days_in_month_range [of y m] by (intro Number_toString_pos) simp_all
  have ld: "Date_day0_getDate h (Fin (of_int y)) (Fin (of_int m)) = Fin (of_int (days_in_month y m))"
    using assms(4,5,7,8,9) by (rule Date_day0_getDate_month)
  from mapper_Some [OF assms(1,2), of h] show ?thesis
    unfolding assms(3) assms(6) ld sm sy sd by blast
qed

lemma dates_without_leading_zero:
  assumes "1 \<le> m" and "1000 \<le> y"
  shows "hd (nat_digits (nat m)) \<noteq> CHR ''0''
      \<and> hd (nat_digits (nat (days_in_month y m))) \<noteq> CHR ''0''
      \<and> hd (nat_digits (nat y)) \<noteq> CHR ''0''"
  using assms days_in_month_range [of y m] by (auto intro!: nat_digits_no_leading_zero)

lemma days_in_month_examples:
  "days_in_month 2024 2 = 29 \<and> days_in_month 2025 2 = 28 \<and> days_in_month 2025 8 = 31"
  by (simp add: days_in_month_def is_leap_year_def)

lemmas row_eval = mapADLSToReconciliationRow_def example_statement_def example_detail_def
  example_host_def period_month_def period_year_def num_or_def num_truthy_def opt_num_val_def
  opt_num_or_def safeParseInt_def isNaN_def Math_floor_def

lemma example_host_keeps_day:
  assumes "1 \<le> m" and "m \<le> 12" and "1000 \<le> y" and "y \<le> 9999"
  shows "zone_keeps_day (example_host now) (last_day_number y m)"
  using last_day_number_range [OF assms]
  by (intro utc_keeps_day) (simp_all add: example_host_def)

lemma dates_in_utc_examples:
  "(\<exists>row. mapADLSToReconciliationRow (example_host 0)
            (Some (example_statement (Some (Fin 8)) (Some (Fin 2025)) AccountsAbsent None)) = Inr row
      \<and> first_transaction_date row = ''8/1/2025'' \<and> last_transaction_date row = ''8/31/2025'')
   \<and> (\<exists>row. mapADLSToReconciliationRow (example_host 0)
            (Some (example_statement (Some (Fin 2)) (Some (Fin 2024)) AccountsAbsent None)) = Inr row
      \<and> first_transaction_date row = ''2/1/2024'' \<and> last_transaction_date row = ''2/29/2024'')
   \<and> (\<exists>row. mapADLSToReconciliationRow (example_host 0)
            (Some (example_statement None (Some NaN) AccountsAbsent None)) = Inr row
      \<and> first_transaction_date row = ''1/1/2025'' \<and> last_transaction_date row = ''1/31/2025'')"
proof -
  have p: "parsed_json (example_statement mo ye AccountsAbsent None)
             = Some (example_detail mo ye AccountsAbsent)" for mo ye
    by (simp add: example_statement_def)
  have a: "map_accounts (raw_accounts (example_detail mo ye AccountsAbsent)) = Inr []" for mo ye
    by (simp add: example_detail_def map_accounts_def)
  have m8: "period_month (example_detail (Some (Fin 8)) (Some (Fin 2025)) AccountsAbsent) = Fin (of_int 8)"
      "period_year (example_detail (Some (Fin 8)) (Some (Fin 2025)) AccountsAbsent) = Fin (of_int 2025)"
    by (simp_all add: row_eval)
  have m2: "period_month (example_detail (Some (Fin 2)) (Some (Fin 2024)) AccountsAbsent) = Fin (of_int 2)"
      "period_year (example_detail (Some (Fin 2)) (Some (Fin 2024)) AccountsAbsent) = Fin (of_int 2024)"
    by (simp_all add: row_eval)
  have m0: "period_month (example_detail None (Some NaN) AccountsAbsent) = Fin (of_int 1)"
      "period_year (example_detail None (Some NaN) AccountsAbsent) = Fin (of_int 2025)"
    by (simp_all add: row_eval)
  show ?thesis
    using dates_of_valid_period [OF p a m8(1) _ _ m8(2) _ _ example_host_keeps_day, of 0]
      dates_of_valid_period [OF p a m2(1) _ _ m2(2) _ _ example_host_keeps_day, of 0]
      dates_of_valid_period [OF p a m0(1) _ _ m0(2) _ _ example_host_keeps_day, of 0]
    by (simp add: days_in_month_def is_leap_year_def)
qed

text \<open>
  C6. The claim: for a statement with month 12 and year 1994 the last transaction date is
  \<open>12/31/1994\<close>, December having 31 days. The code, run on a host in the zone
  \<open>Pacific/Kiritimati\<close>, where the local day 31 December 1994 was skipped, gives
  \<open>12/1/1994\<close> as the last transaction date, the same as the first: the local midnight
  that \<open>new Date(1994, 12, 0)\<close> asks for does not exist, and \<open>getDate\<close> reads the
  instant it is given instead on the first of January 1995.
\<close>

theorem last_transaction_date_in_skipped_day:
  "map_sum id last_transaction_date
      (mapADLSToReconciliationRow (kiritimati_host 0)
         (Some (example_statement (Some (Fin 12)) (Some (Fin 1994)) (AccountsArray [])
                  (Some ''parsing_1''))))
     = Inr ''12/1/1994''
   \<and> map_sum id first_transaction_date
      (mapADLSToReconciliationRow (kiritimati_host 0)
         (Some (example_statement (Some (Fin 12)) (Some (Fin 1994)) (AccountsArray [])
                  (Some ''parsing_1''))))
     = Inr ''12/1/1994''
   \<and> map last_transaction_date
       (fetchData_rows (kiritimati_host 0) frozen_clock
          [example_statement (Some (Fin 12)) (Some (Fin 1994)) (AccountsArray [])
             (Some ''parsing_1'')])
     = [''12/1/1994'']
   \<and> period_month (example_detail (Some (Fin 12)) (Some (Fin 1994)) (AccountsArray [])) = Fin 12
   \<and> period_year (example_detail (Some (Fin 12)) (Some (Fin 1994)) (AccountsArray [])) = Fin 1994
   \<and> days_in_month 1994 12 = 31"
proof -
  let ?pj = "example_detail (Some (Fin 12)) (Some (Fin 1994)) (AccountsArray [])"
  let ?d = "example_statement (Some (Fin 12)) (Some (Fin 1994)) (AccountsArray []) (Some ''parsing_1'')"
  have p: "parsed_json ?d = Some ?pj" by (simp add: example_statement_def)
  have a: "map_accounts (raw_accounts ?pj) = Inr []"
    by (simp add: example_detail_def map_accounts_def)
  have pm: "period_month ?pj = Fin 12" and py: "period_year ?pj = Fin 1994"
    by (simp_all add: row_eval)
  have ld: "Date_day0_getDate h (Fin 1994) (Fin 12) = Fin 1" if "h = kiritimati_host now" for h now
    using kiritimati_december_1994 [of now] that by simp
  have has: "has_accounts_array ?d"
    by (simp add: has_accounts_array_def example_statement_def example_detail_def)
  have clock: "(kiritimati_host 0)\<lparr>date_now := frozen_clock 0\<rparr> = kiritimati_host (frozen_clock 0)"
    by (simp add: kiritimati_host_def)
  have row: "\<exists>row. mapADLSToReconciliationRow (kiritimati_host now) (Some ?d) = Inr row
      \<and> first_transaction_date row = ''12/1/1994'' \<and> last_transaction_date row = ''12/1/1994''" for now
    using mapper_Some [OF p a, of "kiritimati_host now"]
    unfolding pm py ld [OF refl] by auto
  from row [of 0] obtain r0 where r0: "mapADLSToReconciliationRow (kiritimati_host 0) (Some ?d) = Inr r0"
    "first_transaction_date r0 = ''12/1/1994''" "last_transaction_date r0 = ''12/1/1994''"
    by blast
  from row [of "frozen_clock 0"] obtain r1 where
    r1: "mapADLSToReconciliationRow (kiritimati_host (frozen_clock 0)) (Some ?d) = Inr r1"
    "last_transaction_date r1 = ''12/1/1994''"
    by blast
  have batch: "map last_transaction_date (fetchData_rows (kiritimati_host 0) frozen_clock [?d])
      = [''12/1/1994'']"
    using has r1 by (simp add: fetchData_rows_def clock)
  have dm: "days_in_month 1994 12 = 31" by (simp add: days_in_month_def)
  show ?thesis using r0 batch pm py dm by simp
qed

section \<open>Structural failure and the batch loop\<close>

text \<open>
  C10. When the envelope has its \<open>parsed_json\<close> but the accounts list in it is absent
  or null, the mapper does not raise: it returns a row whose accounts sequence is empty.
  The mapper raises its structural error on an envelope exactly when \<open>parsed_json\<close>
  itself is missing.
\<close>

theorem absent_accounts_empty_row:
  "(parsed_json d = Some pj \<and> raw_accounts pj = AccountsAbsent \<longrightarrow>
      (\<exists>row. mapADLSToReconciliationRow h (Some d) = Inr row \<and> accounts row = []))
   \<and> (mapADLSToReconciliationRow h (Some d) = Inl MissingParsedJson \<longleftrightarrow> parsed_json d = None)"
proof -
  have "raw_accounts pj = AccountsAbsent \<longrightarrow> map_accounts (raw_accounts pj) = Inr []"
    by (simp add: map_accounts_def)
  then show ?thesis
    using mapper_Some [of d pj "[]" h] mapper_missing_iff [of h "Some d"] by auto
qed

theorem absent_accounts_empty_row_witness:
  "parsed_json (example_statement (Some (Fin 8)) (Some (Fin 2025)) AccountsAbsent None)
     = Some (example_detail (Some (Fin 8)) (Some (Fin 2025)) AccountsAbsent)
   \<and> raw_accounts (example_detail (Some (Fin 8)) (Some (Fin 2025)) AccountsAbsent) = AccountsAbsent
   \<and> (\<exists>row. mapADLSToReconciliationRow (example_host 0)
              (Some (example_statement (Some (Fin 8)) (Some (Fin 2025)) AccountsAbsent None)) = Inr row
          \<and> accounts row = [])
   \<and> mapADLSToReconciliationRow (example_host 0) (Some example_broken_envelope)
        = Inl MissingParsedJson
   \<and> parsed_json example_broken_envelope = None"
proof -
  have h: "parsed_json (example_statement (Some (Fin 8)) (Some (Fin 2025)) AccountsAbsent None)
       = Some (example_detail (Some (Fin 8)) (Some (Fin 2025)) AccountsAbsent)
     \<and> raw_accounts (example_detail (Some (Fin 8)) (Some (Fin 2025)) AccountsAbsent) = AccountsAbsent"
    by (simp add: example_statement_def example_detail_def)
  have b: "parsed_json example_broken_envelope = None"
    by (simp add: example_broken_envelope_def)
  show ?thesis
    using h b
      absent_accounts_empty_row [of "example_statement (Some (Fin 8)) (Some (Fin 2025)) AccountsAbsent None"
        "example_detail (Some (Fin 8)) (Some (Fin 2025)) AccountsAbsent" "example_host 0"]
      absent_accounts_empty_row [of example_broken_envelope
        "example_detail None None AccountsAbsent" "example_host 0"]
    by blast
qed

lemma mappable_has_accounts_array: "mappable item \<Longrightarrow> has_accounts_array item"
  by (auto simp: mappable_def has_accounts_array_def split: option.splits accounts_json.splits)

lemma mappable_maps:
  assumes "mappable item"
  shows "\<exists>row. mapADLSToReconciliationRow h (Some item) = Inr row"
proof -
  from assms obtain pj entries where pj: "parsed_json item = Some pj"
    and e: "raw_accounts pj = AccountsArray entries" "None \<notin> set entries"
    by (auto simp: mappable_def split: option.splits accounts_json.splits)
  from map_entries_no_null [OF e(2)] obtain accs where "entries = map Some accs" by blast
  with e(1) have "raw_accounts pj = AccountsArray (map Some accs)" by simp
  from mapper_account_objects [OF pj this, of h] show ?thesis by blast
qed

lemma not_mappable_fails:
  assumes "has_accounts_array item" and "\<not> mappable item"
  shows "mapADLSToReconciliationRow h (Some item) = Inl TypeError"
proof -
  from assms obtain pj entries where "parsed_json item = Some pj"
    "raw_accounts pj = AccountsArray entries" "None \<in> set entries"
    by (auto simp: mappable_def has_accounts_array_def split: option.splits accounts_json.splits)
  then show ?thesis using mapper_type_error_iff [of h item] by auto
qed

lemma forEach_items_skip:
  assumes "\<not> mappable item"
  shows "forEach_items h clock i (item # rest) = forEach_items h clock (Suc i) rest"
proof (cases "has_accounts_array item")
  case True
  from not_mappable_fails [OF True assms, of "h\<lparr>date_now := clock i\<rparr>"] True
  show ?thesis by simp
next
  case False
  then show ?thesis by simp
qed

lemma forEach_items_keep:
  assumes "mappable item"
  shows "\<exists>row. mapADLSToReconciliationRow (h\<lparr>date_now := clock i\<rparr>) (Some item) = Inr row
     \<and> forEach_items h clock i (item # rest) = row # forEach_items h clock (Suc i) rest"
proof -
  from mappable_maps [OF assms, of "h\<lparr>date_now := clock i\<rparr>"] obtain row
    where "mapADLSToReconciliationRow (h\<lparr>date_now := clock i\<rparr>) (Some item) = Inr row"
    by blast
  then show ?thesis using mappable_has_accounts_array [OF assms] by simp
qed

lemma forEach_items_length:
  "length (forEach_items h clock i items) = length (filter mappable items)"
proof (induction items arbitrary: i)
  case Nil
  show ?case by simp
next
  case (Cons item rest)
  show ?case
  proof (cases "mappable item")
    case True
    from forEach_items_keep [OF True, of clock i h rest] obtain row
      where "forEach_items h clock i (item # rest) = row # forEach_items h clock (Suc i) rest"
      by blast
    then show ?thesis using True Cons.IH [of "Suc i"] by simp
  next
    case False
    from forEach_items_skip [OF False, of h clock i rest] show ?thesis
      using False Cons.IH [of "Suc i"] by simp
  qed
qed

lemma batch_of_three:
  assumes "mappable a" and "parsed_json b = None" and "mappable c"
  shows "\<exists>r1 r3.
      mapADLSToReconciliationRow (h\<lparr>date_now := clock 0\<rparr>) (Some a) = Inr r1
    \<and> mapADLSToReconciliationRow (h\<lparr>date_now := clock 2\<rparr>) (Some c) = Inr r3
    \<and> fetchData_rows h clock [a, b, c] = [r1, r3]"
proof -
  have nb: "\<not> mappable b" using assms(2) by (simp add: mappable_def)
  from forEach_items_keep [OF assms(1), of clock 0 h "[b, c]"] obtain r1 where
    r1: "mapADLSToReconciliationRow (h\<lparr>date_now := clock 0\<rparr>) (Some a) = Inr r1"
      "forEach_items h clock 0 [a, b, c] = r1 # forEach_items h clock (Suc 0) [b, c]"
    by blast
  from forEach_items_keep [OF assms(3), of clock 2 h "[]"] obtain r3 where
    r3: "mapADLSToReconciliationRow (h\<lparr>date_now := clock 2\<rparr>) (Some c) = Inr r3"
      "forEach_items h clock 2 [c] = r3 # forEach_items h clock (Suc 2) []"
    by blast
  have "forEach_items h clock (Suc 0) [b, c] = forEach_items h clock 2 [c]"
    using forEach_items_skip [OF nb, of h clock "Suc 0" "[c]"] by (simp add: numeral_2_eq_2)
  then have "fetchData_rows h clock [a, b, c] = [r1, r3]"
    using r1(2) r3(2) by (simp add: fetchData_rows_def)
  with r1(1) r3(1) show ?thesis by blast
qed

text \<open>
  C3, as the claim states it, fails: on an envelope that has its \<open>parsed_json\<close> the
  mapper raises a \<open>TypeError\<close> when the accounts array holds a null entry, and when
  \<open>accounts\<close> is a truthy value that is not an array (here the two envelopes differ
  from a well-formed one in nothing else).
\<close>

theorem mapper_raises_with_detail_counterexample:
  "mapADLSToReconciliationRow (example_host 0)
      (Some (example_statement (Some (Fin 8)) (Some (Fin 2025)) (AccountsArray [None])
               (Some ''parsing_1'')))
     = Inl TypeError
   \<and> mapADLSToReconciliationRow (example_host 0)
      (Some (example_statement (Some (Fin 8)) (Some (Fin 2025)) (AccountsOther True)
               (Some ''parsing_1'')))
     = Inl TypeError
   \<and> parsed_json (example_statement (Some (Fin 8)) (Some (Fin 2025)) (AccountsArray [None])
                    (Some ''parsing_1''))
       = Some (example_detail (Some (Fin 8)) (Some (Fin 2025)) (AccountsArray [None]))
   \<and> parsed_json (example_statement (Some (Fin 8)) (Some (Fin 2025)) (AccountsOther True)
                    (Some ''parsing_1''))
       = Some (example_detail (Some (Fin 8)) (Some (Fin 2025)) (AccountsOther True))"
  by (simp add: mapADLSToReconciliationRow_def example_statement_def example_detail_def
      map_accounts_def Let_def)

text \<open>
  C3, amended. The mapper raises its structural error exactly when the envelope lacks its
  \<open>parsed_json\<close> (an absent envelope lacks it too). On an envelope that has it, its
  other members being of their declared types (the filename a string when present, the
  month and year numbers, each field of an account a number, a string, null or absent),
  the mapper raises in one case only, a \<open>TypeError\<close>, when the accounts array holds
  a null entry or \<open>accounts\<close> is a truthy value that is not an array; whatever the
  fields of the account objects hold, every account of the list is mapped and nothing is
  raised.
  In a batch the items are handled one by one: of three items, the first and third well
  formed (a \<open>parsed_json\<close> with an array of account objects) and the second without
  \<open>parsed_json\<close>, exactly the rows of the first and the third come out, in that order.
  The loop keeps one row for each well-formed item and drops every other item.
\<close>

theorem mapper_fails_only_without_detail:
  "(mapADLSToReconciliationRow h x = Inl MissingParsedJson \<longleftrightarrow>
       (case x of None \<Rightarrow> True | Some d \<Rightarrow> parsed_json d = None))
   \<and> (mapADLSToReconciliationRow h (Some d) = Inl TypeError \<longleftrightarrow>
        (\<exists>pj. parsed_json d = Some pj
           \<and> (raw_accounts pj = AccountsOther True
                \<or> (\<exists>entries. raw_accounts pj = AccountsArray entries \<and> None \<in> set entries))))
   \<and> (parsed_json d = Some pj \<and> raw_accounts pj = AccountsArray (map Some accs) \<longrightarrow>
        (\<exists>row. mapADLSToReconciliationRow h (Some d) = Inr row
           \<and> accounts row = map mapAccountData accs))
   \<and> (mappable a \<and> parsed_json b = None \<and> mappable c \<longrightarrow>
        (\<exists>r1 r3.
            mapADLSToReconciliationRow (h\<lparr>date_now := clock 0\<rparr>) (Some a) = Inr r1
          \<and> mapADLSToReconciliationRow (h\<lparr>date_now := clock 2\<rparr>) (Some c) = Inr r3
          \<and> fetchData_rows h clock [a, b, c] = [r1, r3]))
   \<and> length (fetchData_rows h clock items) = length (filter mappable items)"
proof -
  have acc: "parsed_json d = Some pj \<and> raw_accounts pj = AccountsArray (map Some accs) \<longrightarrow>
        (\<exists>row. mapADLSToReconciliationRow h (Some d) = Inr row
           \<and> accounts row = map mapAccountData accs)"
    using mapper_account_objects [of d pj accs h] by blast
  have three: "mappable a \<and> parsed_json b = None \<and> mappable c \<longrightarrow>
        (\<exists>r1 r3.
            mapADLSToReconciliationRow (h\<lparr>date_now := clock 0\<rparr>) (Some a) = Inr r1
          \<and> mapADLSToReconciliationRow (h\<lparr>date_now := clock 2\<rparr>) (Some c) = Inr r3
          \<and> fetchData_rows h clock [a, b, c] = [r1, r3])"
    using batch_of_three [of a b c clock h] by blast
  have len: "length (fetchData_rows h clock items) = length (filter mappable items)"
    by (simp add: fetchData_rows_def forEach_items_length)
  from mapper_missing_iff [of h x] mapper_type_error_iff [of h d] acc three len
  show ?thesis by (intro conjI)
qed

theorem mapper_fails_only_without_detail_witness:
  "mappable
      (example_statement (Some (Fin 8)) (Some (Fin 2025))
         (AccountsArray [Some (example_raw_account (JNum (Fin 5)))]) (Some ''parsing_1''))
   \<and> parsed_json example_broken_envelope = None
   \<and> mappable
      (example_statement (Some (Fin 9)) (Some (Fin 2025)) (AccountsArray []) (Some ''parsing_3''))
   \<and> map case_id (fetchData_rows (example_host 0) frozen_clock
        [example_statement (Some (Fin 8)) (Some (Fin 2025))
           (AccountsArray [Some (example_raw_account (JNum (Fin 5)))]) (Some ''parsing_1''),
         example_broken_envelope,
         example_statement (Some (Fin 9)) (Some (Fin 2025)) (AccountsArray []) (Some ''parsing_3'')])
      = [''parsing_1'', ''parsing_3'']
   \<and> (\<exists>row. mapADLSToReconciliationRow (example_host 0)
         (Some (example_statement (Some (Fin 8)) (Some (Fin 2025))
                  (AccountsArray [Some (example_raw_account (JNum (Fin 5)))]) (Some ''parsing_1'')))
         = Inr row
       \<and> accounts row = [mapAccountData (example_raw_account (JNum (Fin 5)))])
   \<and> length (fetchData_rows (example_host 0) frozen_clock
        [example_statement (Some (Fin 8)) (Some (Fin 2025))
           (AccountsArray [Some (example_raw_account (JNum (Fin 5)))]) (Some ''parsing_1''),
         example_statement (Some (Fin 8)) (Some (Fin 2025)) (AccountsArray [None])
           (Some ''parsing_4''),
         example_broken_envelope,
         example_statement (Some (Fin 9)) (Some (Fin 2025)) (AccountsArray []) (Some ''parsing_3'')])
      = 2"
proof -
  let ?a = "example_statement (Some (Fin 8)) (Some (Fin 2025))
              (AccountsArray [Some (example_raw_account (JNum (Fin 5)))]) (Some ''parsing_1'')"
  let ?pa = "example_detail (Some (Fin 8)) (Some (Fin 2025))
              (AccountsArray [Some (example_raw_account (JNum (Fin 5)))])"
  let ?n = "example_statement (Some (Fin 8)) (Some (Fin 2025)) (AccountsArray [None])
              (Some ''parsing_4'')"
  let ?c = "example_statement (Some (Fin 9)) (Some (Fin 2025)) (AccountsArray []) (Some ''parsing_3'')"
  have ha: "mappable ?a" and hc: "mappable ?c" and hn: "\<not> mappable ?n"
    by (simp_all add: mappable_def example_statement_def example_detail_def)
  have hb: "parsed_json example_broken_envelope = None" and nb: "\<not> mappable example_broken_envelope"
    by (simp_all add: example_broken_envelope_def mappable_def)
  have ba: "batch_id ?a = Some ''parsing_1''" and bc: "batch_id ?c = Some ''parsing_3''"
    by (simp_all add: example_statement_def)
  have pa: "parsed_json ?a = Some ?pa"
    and ra: "raw_accounts ?pa = AccountsArray (map Some [example_raw_account (JNum (Fin 5))])"
    by (simp_all add: example_statement_def example_detail_def)
  note t = mapper_fails_only_without_detail [of "example_host 0" None ?a ?pa
      "[example_raw_account (JNum (Fin 5))]" ?a example_broken_envelope ?c frozen_clock
      "[?a, ?n, example_broken_envelope, ?c]"]
  from ha hb hc t obtain r1 r3 where
    r: "mapADLSToReconciliationRow ((example_host 0)\<lparr>date_now := frozen_clock 0\<rparr>) (Some ?a) = Inr r1"
       "mapADLSToReconciliationRow ((example_host 0)\<lparr>date_now := frozen_clock 2\<rparr>) (Some ?c) = Inr r3"
       "fetchData_rows (example_host 0) frozen_clock [?a, example_broken_envelope, ?c] = [r1, r3]"
    by blast
  have "case_id r1 = ''parsing_1''" using mapper_case_id [OF r(1)] by (simp add: ba)
  moreover have "case_id r3 = ''parsing_3''" using mapper_case_id [OF r(2)] by (simp add: bc)
  ultimately have ids: "map case_id (fetchData_rows (example_host 0) frozen_clock
      [?a, example_broken_envelope, ?c]) = [''parsing_1'', ''parsing_3'']"
    using r(3) by simp
  from pa ra t have row: "\<exists>row. mapADLSToReconciliationRow (example_host 0) (Some ?a) = Inr row
       \<and> accounts row = [mapAccountData (example_raw_account (JNum (Fin 5)))]"
    by simp
  from t have "length (fetchData_rows (example_host 0) frozen_clock
        [?a, ?n, example_broken_envelope, ?c])
      = length (filter mappable [?a, ?n, example_broken_envelope, ?c])"
    by blast
  then have len: "length (fetchData_rows (example_host 0) frozen_clock
        [?a, ?n, example_broken_envelope, ?c]) = 2"
    using ha hn nb hc by simp
  from ha hb hc ids row len show ?thesis by (intro conjI)
qed

section \<open>Dependence on the clock\<close>

lemma fallback_case_id_digits:
  "date_now h \<le> 2 ^ 53 \<Longrightarrow> fallback_case_id h = ''CASE-'' @ nat_digits (date_now h)"
  by (simp add: fallback_case_id_def Number_toString_nat)

lemma fallback_case_id_distinct:
  assumes "date_now h1 \<le> 2 ^ 53" and "date_now h2 \<le> 2 ^ 53" and "date_now h1 \<noteq> date_now h2"
  shows "fallback_case_id h1 \<noteq> fallback_case_id h2"
  using assms nat_digits_inj [of "date_now h1" "date_now h2"]
  by (auto simp: fallback_case_id_digits)

lemma Number_toString_cong:
  "number_text h1 = number_text h2 \<Longrightarrow> Number_toString h1 a = Number_toString h2 a"
  by (simp add: Number_toString_def split: jsnum.splits)

lemma getMonthAbbreviation_cong:
  "number_text h1 = number_text h2 \<Longrightarrow> getMonthAbbreviation h1 a = getMonthAbbreviation h2 a"
  by (simp add: getMonthAbbreviation_def Number_toString_cong [of h1 h2])

lemma Date_day0_getDate_cong:
  assumes "zone_offset_of_local h1 = zone_offset_of_local h2"
    and "zone_offset_of_utc h1 = zone_offset_of_utc h2"
  shows "Date_day0_getDate h1 y m = Date_day0_getDate h2 y m"
  unfolding Date_day0_getDate_def assms ..

lemma mapper_cong_except_case_id:
  assumes "number_text h1 = number_text h2"
    and "zone_offset_of_local h1 = zone_offset_of_local h2"
    and "zone_offset_of_utc h1 = zone_offset_of_utc h2"
    and "mapADLSToReconciliationRow h1 x = Inr r1"
    and "mapADLSToReconciliationRow h2 x = Inr r2"
  shows "r1\<lparr>case_id := []\<rparr> = r2\<lparr>case_id := []\<rparr>"
proof -
  from assms(4) obtain d pj where x: "x = Some d" and pj: "parsed_json d = Some pj"
    by (auto simp: mapADLSToReconciliationRow_def split: option.splits)
  have n: "Number_toString h1 = Number_toString h2"
    using Number_toString_cong [OF assms(1)] by (intro ext)
  have g: "getMonthAbbreviation h1 = getMonthAbbreviation h2"
    using getMonthAbbreviation_cong [OF assms(1)] by (intro ext)
  have z: "Date_day0_getDate h1 = Date_day0_getDate h2"
    using Date_day0_getDate_cong [OF assms(2,3)] by (intro ext)
  from assms(4,5) show ?thesis
    unfolding x
    by (auto simp: mapADLSToReconciliationRow_def Let_def pj n g z split: sum.splits)
qed

lemma mapper_cong_with_batch_id:
  assumes "number_text h1 = number_text h2"
    and "zone_offset_of_local h1 = zone_offset_of_local h2"
    and "zone_offset_of_utc h1 = zone_offset_of_utc h2"
    and "batch_id d = Some b" and "b \<noteq> []"
  shows "mapADLSToReconciliationRow h1 (Some d) = mapADLSToReconciliationRow h2 (Some d)"
proof -
  have n: "Number_toString h1 = Number_toString h2"
    using Number_toString_cong [OF assms(1)] by (intro ext)
  have g: "getMonthAbbreviation h1 = getMonthAbbreviation h2"
    using getMonthAbbreviation_cong [OF assms(1)] by (intro ext)
  have z: "Date_day0_getDate h1 = Date_day0_getDate h2"
    using Date_day0_getDate_cong [OF assms(2,3)] by (intro ext)
  show ?thesis
    using assms(4,5)
    by (simp add: mapADLSToReconciliationRow_def Let_def n g z split: option.splits sum.splits)
qed

lemma mapper_fails_together:
  "(\<exists>e. mapADLSToReconciliationRow h1 x = Inl e) \<longleftrightarrow> (\<exists>e. mapADLSToReconciliationRow h2 x = Inl e)"
  unfolding mapper_fails_iff ..

text \<open>
  C4, as the claim states it, fails: a statement without \<open>batch_id\<close> mapped at clock
  readings 1000 and 1001 gives two different rows.
\<close>

theorem mapping_not_idempotent_counterexample:
  "mapADLSToReconciliationRow (example_host 1000)
       (Some (example_statement (Some (Fin 8)) (Some (Fin 2025)) (AccountsArray []) None))
     \<noteq> mapADLSToReconciliationRow (example_host 1001)
       (Some (example_statement (Some (Fin 8)) (Some (Fin 2025)) (AccountsArray []) None))"
proof
  let ?d = "example_statement (Some (Fin 8)) (Some (Fin 2025)) (AccountsArray []) None"
  let ?pj = "example_detail (Some (Fin 8)) (Some (Fin 2025)) (AccountsArray [])"
  assume eq: "mapADLSToReconciliationRow (example_host 1000) (Some ?d)
                = mapADLSToReconciliationRow (example_host 1001) (Some ?d)"
  have pj: "parsed_json ?d = Some ?pj"
    by (simp add: example_statement_def)
  have a: "map_accounts (raw_accounts ?pj) = Inr []"
    by (simp add: example_detail_def map_accounts_def)
  have b: "batch_id ?d = None" by (simp add: example_statement_def)
  from mapper_Some [OF pj a, of "example_host 1000"] obtain r
    where r: "mapADLSToReconciliationRow (example_host 1000) (Some ?d) = Inr r" by blast
  have "case_id r = fallback_case_id (example_host 1000)"
    using mapper_case_id [OF r] by (simp add: b)
  moreover have "case_id r = fallback_case_id (example_host 1001)"
    using mapper_case_id [OF r [unfolded eq]] by (simp add: b)
  ultimately show False
    by (simp add: fallback_case_id_digits example_host_def)
qed

text \<open>
  C4, amended. The mapper reads nothing but its argument, the clock and the host's number
  format and time zone, which stay the same from one mapping to the next. For a statement
  with a non-empty \<open>batch_id\<close> two mappings give the same row whatever the clock reads.
  For any statement two mappings fail together or give rows that agree on every field
  other than \<open>case_id\<close>; without a \<open>batch_id\<close> the \<open>case_id\<close> is \<open>CASE-\<close> followed
  by the clock reading in milliseconds, so it differs whenever the readings differ.
\<close>

theorem mapping_deterministic_up_to_case_id:
  "(number_text h1 = number_text h2 \<and> zone_offset_of_local h1 = zone_offset_of_local h2
      \<and> zone_offset_of_utc h1 = zone_offset_of_utc h2 \<and> batch_id d = Some b \<and> b \<noteq> [] \<longrightarrow>
      mapADLSToReconciliationRow h1 (Some d) = mapADLSToReconciliationRow h2 (Some d))
   \<and> (number_text h1 = number_text h2 \<and> zone_offset_of_local h1 = zone_offset_of_local h2
      \<and> zone_offset_of_utc h1 = zone_offset_of_utc h2 \<and> mapADLSToReconciliationRow h1 x = Inr r1
        \<and> mapADLSToReconciliationRow h2 x = Inr r2 \<longrightarrow>
      r1\<lparr>case_id := []\<rparr> = r2\<lparr>case_id := []\<rparr>)
   \<and> ((\<exists>e. mapADLSToReconciliationRow h1 x = Inl e) \<longleftrightarrow> (\<exists>e. mapADLSToReconciliationRow h2 x = Inl e))
   \<and> ((batch_id d = None \<or> batch_id d = Some []) \<and> mapADLSToReconciliationRow h1 (Some d) = Inr r1 \<longrightarrow>
        case_id r1 = fallback_case_id h1)
   \<and> (date_now h1 \<le> 2 ^ 53 \<longrightarrow> fallback_case_id h1 = ''CASE-'' @ nat_digits (date_now h1))
   \<and> (date_now h1 \<le> 2 ^ 53 \<and> date_now h2 \<le> 2 ^ 53 \<and> date_now h1 \<noteq> date_now h2 \<longrightarrow>
        fallback_case_id h1 \<noteq> fallback_case_id h2)"
proof -
  have fb: "(batch_id d = None \<or> batch_id d = Some []) \<and> mapADLSToReconciliationRow h1 (Some d) = Inr r1 \<longrightarrow>
        case_id r1 = fallback_case_id h1"
    using mapper_case_id [of h1 d r1] by auto
  show ?thesis
    using fb mapper_cong_with_batch_id [of h1 h2 d b] mapper_cong_except_case_id [of h1 h2 x r1 r2]
      mapper_fails_together [of h1 x h2]
      fallback_case_id_digits [of h1] fallback_case_id_distinct [of h1 h2]
    by blast
qed

theorem mapping_deterministic_up_to_case_id_witness:
  "number_text (example_host 1000) = number_text (example_host 1001)
   \<and> zone_offset_of_local (example_host 1000) = zone_offset_of_local (example_host 1001)
   \<and> zone_offset_of_utc (example_host 1000) = zone_offset_of_utc (example_host 1001)
   \<and> mapADLSToReconciliationRow (example_host 1000)
         (Some (example_statement (Some (Fin 8)) (Some (Fin 2025)) (AccountsArray []) (Some ''parsing_1'')))
       = mapADLSToReconciliationRow (example_host 1001)
         (Some (example_statement (Some (Fin 8)) (Some (Fin 2025)) (AccountsArray []) (Some ''parsing_1'')))
   \<and> (\<exists>r1 r2.
         mapADLSToReconciliationRow (example_host 1000)
           (Some (example_statement (Some (Fin 8)) (Some (Fin 2025)) (AccountsArray []) None)) = Inr r1
       \<and> mapADLSToReconciliationRow (example_host 1001)
           (Some (example_statement (Some (Fin 8)) (Some (Fin 2025)) (AccountsArray []) None)) = Inr r2
       \<and> r1\<lparr>case_id := []\<rparr> = r2\<lparr>case_id := []\<rparr>
       \<and> case_id r1 = ''CASE-1000'' \<and> case_id r2 = ''CASE-1001'')"
proof -
  let ?b = "example_statement (Some (Fin 8)) (Some (Fin 2025)) (AccountsArray []) (Some ''parsing_1'')"
  let ?n = "example_statement (Some (Fin 8)) (Some (Fin 2025)) (AccountsArray []) None"
  let ?pj = "example_detail (Some (Fin 8)) (Some (Fin 2025)) (AccountsArray [])"
  have nt: "number_text (example_host 1000) = number_text (example_host 1001)"
    "zone_offset_of_local (example_host 1000) = zone_offset_of_local (example_host 1001)"
    "zone_offset_of_utc (example_host 1000) = zone_offset_of_utc (example_host 1001)"
    by (simp_all add: example_host_def)
  have bb: "batch_id ?b = Some ''parsing_1''" and bn: "batch_id ?n = None"
    by (simp_all add: example_statement_def)
  have pj: "parsed_json ?n = Some ?pj"
    by (simp add: example_statement_def)
  have a: "map_accounts (raw_accounts ?pj) = Inr []"
    by (simp add: example_detail_def map_accounts_def)
  have dn: "date_now (example_host 1000) \<le> 2 ^ 53" "date_now (example_host 1001) \<le> 2 ^ 53"
    by (simp_all add: example_host_def)
  from mapper_Some [OF pj a, of "example_host 1000"] obtain r1
    where r1: "mapADLSToReconciliationRow (example_host 1000) (Some ?n) = Inr r1" by blast
  from mapper_Some [OF pj a, of "example_host 1001"] obtain r2
    where r2: "mapADLSToReconciliationRow (example_host 1001) (Some ?n) = Inr r2" by blast
  have eqb: "mapADLSToReconciliationRow (example_host 1000) (Some ?b)
       = mapADLSToReconciliationRow (example_host 1001) (Some ?b)"
    using nt bb
      mapping_deterministic_up_to_case_id [of "example_host 1000" "example_host 1001" ?b
        "''parsing_1''" "Some ?n" r1 r2]
    by simp
  have agree: "r1\<lparr>case_id := []\<rparr> = r2\<lparr>case_id := []\<rparr>"
    using nt r1 r2
      mapping_deterministic_up_to_case_id [of "example_host 1000" "example_host 1001" ?b
        "''parsing_1''" "Some ?n" r1 r2]
    by simp
  have c1: "case_id r1 = ''CASE-1000''"
    using bn r1 dn(1)
      mapping_deterministic_up_to_case_id [of "example_host 1000" "example_host 1001" ?n
        "''parsing_1''" "Some ?n" r1 r2]
    by (simp add: example_host_def)
  have c2: "case_id r2 = ''CASE-1001''"
    using bn r2 dn(2)
      mapping_deterministic_up_to_case_id [of "example_host 1001" "example_host 1000" ?n
        "''parsing_1''" "Some ?n" r2 r1]
    by (simp add: example_host_def)
  from nt eqb r1 r2 agree c1 c2 show ?thesis by blast
qed

text \<open>
  C7. The \<open>case_id\<close> is the \<open>batch_id\<close> when that is present and not empty, and
  \<open>CASE-\<close> followed by the clock reading otherwise. Two statements without \<open>batch_id\<close>
  that the batch loop maps within the same millisecond get the same fallback: here both
  rows carry \<open>CASE-1700000000000\<close>, against the claim that the two are distinct.
\<close>

theorem fallback_case_id_collision:
  "map case_id (fetchData_rows (example_host 0) frozen_clock
      [example_statement (Some (Fin 8)) (Some (Fin 2025)) (AccountsArray []) None,
       example_statement (Some (Fin 9)) (Some (Fin 2025)) (AccountsArray []) (Some [])])
     = [''CASE-1700000000000'', ''CASE-1700000000000'']"
proof -
  let ?a = "example_statement (Some (Fin 8)) (Some (Fin 2025)) (AccountsArray []) None"
  let ?c = "example_statement (Some (Fin 9)) (Some (Fin 2025)) (AccountsArray []) (Some [])"
  let ?h = "example_host 0"
  have ha: "mappable ?a" and hc: "mappable ?c"
    by (simp_all add: mappable_def example_statement_def example_detail_def)
  have ba: "batch_id ?a = None" and bc: "batch_id ?c = Some []"
    by (simp_all add: example_statement_def)
  from forEach_items_keep [OF ha, of frozen_clock 0 ?h "[?c]"] obtain r1 where
    r1: "mapADLSToReconciliationRow (?h\<lparr>date_now := frozen_clock 0\<rparr>) (Some ?a) = Inr r1"
      "forEach_items ?h frozen_clock 0 [?a, ?c] = r1 # forEach_items ?h frozen_clock (Suc 0) [?c]"
    by blast
  from forEach_items_keep [OF hc, of frozen_clock "Suc 0" ?h "[]"] obtain r2 where
    r2: "mapADLSToReconciliationRow (?h\<lparr>date_now := frozen_clock (Suc 0)\<rparr>) (Some ?c) = Inr r2"
      "forEach_items ?h frozen_clock (Suc 0) [?c] = r2 # forEach_items ?h frozen_clock (Suc (Suc 0)) []"
    by blast
  have "case_id r1 = ''CASE-1700000000000''"
    using mapper_case_id [OF r1(1)] by (simp add: ba fallback_case_id_digits frozen_clock_def)
  moreover have "case_id r2 = ''CASE-1700000000000''"
    using mapper_case_id [OF r2(1)] by (simp add: bc fallback_case_id_digits frozen_clock_def)
  ultimately show ?thesis using r1(2) r2(2) by (simp add: fetchData_rows_def)
qed

end
